theory Spec2Isabelle
  imports Complex_Main "HOL-Library.Word" "HOL-Library.Sublist"
begin

section \<open>Python values\<close>

text \<open>
  A Python \<open>str\<close> is a sequence of Unicode code points, so that \<open>len\<close> counts code points.
  ASCII literals of the source are written with \<open>ascii\<close>; the few Chinese literals are
  given by their code points.
\<close>

type_synonym pystr = "nat list"

definition ascii :: "string \<Rightarrow> pystr" where
  "ascii s = map of_char s"

text \<open>\<open>str.strip\<close> removes the characters for which \<open>str.isspace\<close> holds.\<close>

definition isspace :: "nat \<Rightarrow> bool" where
  "isspace c =
     (c \<in> {9, 10, 11, 12, 13, 28, 29, 30, 31, 32, 0x85, 0xA0, 0x1680, 0x2028, 0x2029, 0x202F,
            0x205F, 0x3000}
      \<or> (0x2000 \<le> c \<and> c \<le> 0x200A))"

definition str_strip :: "pystr \<Rightarrow> pystr" where
  "str_strip s = rev (dropWhile isspace (rev (dropWhile isspace s)))"

section \<open>audio\_interface.py: energy of a frame\<close>

text \<open>
  \<open>stream.read\<close> returns raw bytes. \<open>np.frombuffer(data, dtype=np.int16)\<close> reads them as
  16-bit samples in native (little-endian) byte order and raises \<open>ValueError\<close> when the
  number of bytes is odd; \<open>None\<close> stands for that exception.
\<close>

type_synonym bytes = "8 word list"

fun frombuffer :: "bytes \<Rightarrow> 16 word list option" where
  "frombuffer [] = Some []"
| "frombuffer [b] = None"
| "frombuffer (lo # hi # rest) = map_option ((#) (word_cat hi lo)) (frombuffer rest)"

text \<open>
  \<open>audio_data**2\<close> is computed by numpy in the array's own type \<open>int16\<close>: the product wraps
  modulo \<open>2^16\<close> and is read back as a signed value. \<open>np.mean\<close> then averages these signed
  values (as floating point numbers, modelled by reals).
\<close>

definition mean_sq :: "16 word list \<Rightarrow> real" where
  "mean_sq audio_data =
     (\<Sum>x\<leftarrow>audio_data. real_of_int (sint (x * x))) / real (length audio_data)"

text \<open>
  \<open>_calculate_energy\<close>. The test \<open>np.isnan(mean_sq)\<close> never fires on a mean of finitely many
  integers, so only \<open>mean_sq < 0\<close> remains of that guard.
\<close>

definition calculate_energy :: "bytes \<Rightarrow> real option" where
  "calculate_energy data =
     (case frombuffer data of
        None \<Rightarrow> None
      | Some audio_data \<Rightarrow>
          if length audio_data = 0 then Some 0
          else if mean_sq audio_data < 0 then Some 0
          else Some (sqrt (mean_sq audio_data)))"

text \<open>
  The root-mean-square of a frame's samples as the documentation of \<open>_calculate_energy\<close>
  names it ("RMS"): the samples are squared as integers, without wrap-around.
\<close>

definition rms_spec :: "int list \<Rightarrow> real" where
  "rms_spec samples =
     sqrt ((\<Sum>x\<leftarrow>samples. (real_of_int x)\<^sup>2) / real (length samples))"

section \<open>audio\_interface.py: the segmenter\<close>

text \<open>
  The local variables of \<open>listen_for_speech\<close>.
\<close>

record segmenter =
  frames :: "bytes list"
  silence_start :: "real option"
  is_speaking :: bool

definition idle :: segmenter where
  "idle = \<lparr>frames = [], silence_start = None, is_speaking = False\<rparr>"

text \<open>
  One iteration of the \<open>while True\<close> loop starts with \<open>stream.read\<close>. It returns a frame, or
  raises \<open>IOError\<close> (caught: the loop continues) or \<open>KeyboardInterrupt\<close> (caught: the loop
  ends). With a frame come the value of \<open>self._paused\<close> when the loop tests it and the
  reading of \<open>time.time()\<close> in that iteration.
\<close>

datatype event = Frame bytes bool real | IOError | KeyboardInterrupt

datatype exit = Running | Interrupted | Raised

text \<open>
  The loop body for a frame that was read: the segmenter afterwards and the utterance
  yielded, if any. \<open>None\<close> is the \<open>ValueError\<close> of \<open>np.frombuffer\<close>, which no handler of the
  loop catches.
\<close>

definition listen_step ::
  "real \<Rightarrow> real \<Rightarrow> segmenter \<Rightarrow> bytes \<Rightarrow> bool \<Rightarrow> real \<Rightarrow> (segmenter \<times> bytes option) option" where
  "listen_step energy_threshold silence_limit s data paused now =
     (if paused then
        (if is_speaking s
         then Some (s\<lparr>is_speaking := False, frames := [], silence_start := None\<rparr>, None)
         else Some (s, None))
      else
        (case calculate_energy data of
           None \<Rightarrow> None
         | Some energy \<Rightarrow>
             if \<not> is_speaking s then
               (if energy > energy_threshold
                then Some (s\<lparr>is_speaking := True, frames := [data], silence_start := None\<rparr>, None)
                else Some (s, None))
             else
               (let s1 = s\<lparr>frames := frames s @ [data]\<rparr> in
                if energy > energy_threshold then Some (s1\<lparr>silence_start := None\<rparr>, None)
                else
                  (case silence_start s1 of
                     None \<Rightarrow> Some (s1\<lparr>silence_start := Some now\<rparr>, None)
                   | Some t0 \<Rightarrow>
                       if now - t0 > silence_limit
                       then Some (s1\<lparr>frames := [], is_speaking := False, silence_start := None\<rparr>,
                                  Some (concat (frames s1)))
                       else Some (s1, None)))))"

text \<open>
  The loop over the events of the capture source: the utterances yielded in order, the
  local state reached, and how the loop stands when the events are used up.
\<close>

fun listen_loop ::
  "real \<Rightarrow> real \<Rightarrow> segmenter \<Rightarrow> event list \<Rightarrow> bytes list \<times> segmenter \<times> exit" where
  "listen_loop th sl s [] = ([], s, Running)"
| "listen_loop th sl s (KeyboardInterrupt # evs) = ([], s, Interrupted)"
| "listen_loop th sl s (IOError # evs) = listen_loop th sl s evs"
| "listen_loop th sl s (Frame data paused now # evs) =
     (case listen_step th sl s data paused now of
        None \<Rightarrow> ([], s, Raised)
      | Some (s', None) \<Rightarrow> listen_loop th sl s' evs
      | Some (s', Some full_audio) \<Rightarrow>
          (case listen_loop th sl s' evs of (ys, r) \<Rightarrow> (full_audio # ys, r)))"

definition listen_for_speech :: "real \<Rightarrow> real \<Rightarrow> event list \<Rightarrow> bytes list \<times> segmenter \<times> exit" where
  "listen_for_speech energy_threshold silence_limit evs =
     listen_loop energy_threshold silence_limit idle evs"

text \<open>Frames by what the segmenter sees in them while it is not paused.\<close>

fun loud :: "real \<Rightarrow> event \<Rightarrow> bool" where
  "loud th (Frame data paused now) =
     (\<not> paused \<and> (case calculate_energy data of None \<Rightarrow> False | Some energy \<Rightarrow> energy > th))"
| "loud th IOError = False"
| "loud th KeyboardInterrupt = False"

fun quiet :: "real \<Rightarrow> event \<Rightarrow> bool" where
  "quiet th (Frame data paused now) =
     (\<not> paused \<and> (case calculate_energy data of None \<Rightarrow> False | Some energy \<Rightarrow> \<not> energy > th))"
| "quiet th IOError = False"
| "quiet th KeyboardInterrupt = False"

fun paused_frame :: "event \<Rightarrow> bool" where
  "paused_frame (Frame data paused now) = paused"
| "paused_frame IOError = False"
| "paused_frame KeyboardInterrupt = False"

fun data_of :: "event \<Rightarrow> bytes" where
  "data_of (Frame data paused now) = data"
| "data_of IOError = []"
| "data_of KeyboardInterrupt = []"

fun clock_of :: "event \<Rightarrow> real" where
  "clock_of (Frame data paused now) = now"
| "clock_of IOError = 0"
| "clock_of KeyboardInterrupt = 0"

section \<open>Python dictionaries\<close>

text \<open>
  The values the dictionaries of the program hold where the claims look: \<open>None\<close> and
  strings. A dictionary is a map from its keys; \<open>d.get(k)\<close> is \<open>None\<close> for a missing key.
\<close>

datatype pyval = PyNone | PyStr pystr

type_synonym pydict = "pystr \<rightharpoonup> pyval"

definition dict_get :: "pydict \<Rightarrow> pystr \<Rightarrow> pyval" where
  "dict_get d k = (case d k of None \<Rightarrow> PyNone | Some v \<Rightarrow> v)"

section \<open>device\_state.py\<close>

text \<open>The two actions \<open>update_state\<close> knows, U+5F00 ("open, on") and U+5173 ("close, off").\<close>

definition action_on :: pystr where
  "action_on = [0x5F00]"

definition action_off :: pystr where
  "action_off = [0x5173]"

text \<open>\<open>self.devices\<close> as \<open>__init__\<close> builds it.\<close>

definition init_devices :: "pystr \<rightharpoonup> pydict" where
  "init_devices =
     [ascii ''light'' \<mapsto>
        [ascii ''state'' \<mapsto> PyStr (ascii ''off''), ascii ''last_action'' \<mapsto> PyNone,
         ascii ''last_update'' \<mapsto> PyNone],
      ascii ''ac'' \<mapsto>
        [ascii ''state'' \<mapsto> PyStr (ascii ''off''), ascii ''last_action'' \<mapsto> PyNone,
         ascii ''last_update'' \<mapsto> PyNone],
      ascii ''window'' \<mapsto>
        [ascii ''state'' \<mapsto> PyStr (ascii ''closed''), ascii ''last_action'' \<mapsto> PyNone,
         ascii ''last_update'' \<mapsto> PyNone],
      ascii ''temperature'' \<mapsto>
        [ascii ''last_check'' \<mapsto> PyNone, ascii ''last_value'' \<mapsto> PyNone]]"

text \<open>
  \<open>update_state\<close>; \<open>current_time\<close> is the string \<open>datetime.now().isoformat()\<close> returns.
  A command without \<open>type\<close> has \<open>device_type = None\<close>, which is no key of \<open>self.devices\<close>.
\<close>

definition update_state :: "pystr \<Rightarrow> (pystr \<rightharpoonup> pydict) \<Rightarrow> pydict \<Rightarrow> (pystr \<rightharpoonup> pydict)" where
  "update_state current_time devices command =
     (let device_type = dict_get command (ascii ''type'');
          action = dict_get command (ascii ''action'')
      in case device_type of
           PyNone \<Rightarrow> devices
         | PyStr ty \<Rightarrow>
             (case devices ty of
                None \<Rightarrow> devices
              | Some info \<Rightarrow>
                  if ty = ascii ''temperature''
                  then devices(ty \<mapsto> info(ascii ''last_check'' \<mapsto> PyStr current_time))
                  else
                    (let info1 =
                       (if action = PyStr action_on then
                          (if ty = ascii ''window''
                           then info(ascii ''state'' \<mapsto> PyStr (ascii ''open''))
                           else info(ascii ''state'' \<mapsto> PyStr (ascii ''on'')))
                        else if action = PyStr action_off then
                          (if ty = ascii ''window''
                           then info(ascii ''state'' \<mapsto> PyStr (ascii ''closed''))
                           else info(ascii ''state'' \<mapsto> PyStr (ascii ''off'')))
                        else info)
                     in devices(ty \<mapsto> info1(ascii ''last_action'' \<mapsto> action,
                                               ascii ''last_update'' \<mapsto> PyStr current_time)))))"

section \<open>queue.Queue\<close>

text \<open>
  A \<open>queue.Queue\<close> of messages: \<open>maxsize \<le> 0\<close> means unbounded. \<open>put_nowait\<close> raises
  \<open>queue.Full\<close> and \<open>get_nowait\<close> raises \<open>queue.Empty\<close>; \<open>None\<close> stands for the exception.
\<close>

record pyqueue =
  maxsize :: int
  items :: "pydict list"

definition put_nowait :: "pyqueue \<Rightarrow> pydict \<Rightarrow> pyqueue option" where
  "put_nowait q item =
     (if 0 < maxsize q \<and> maxsize q \<le> int (length (items q)) then None
      else Some (q\<lparr>items := items q @ [item]\<rparr>))"

definition get_nowait :: "pyqueue \<Rightarrow> (pydict \<times> pyqueue) option" where
  "get_nowait q =
     (case items q of [] \<Rightarrow> None | item # rest \<Rightarrow> Some (item, q\<lparr>items := rest\<rparr>))"

definition queue_empty :: "pyqueue \<Rightarrow> bool" where
  "queue_empty q = (items q = [])"

section \<open>UTF-8\<close>

text \<open>
  The message file is opened with \<open>encoding='utf-8'\<close>. Writing encodes the text; a code
  point that is no Unicode scalar value (a surrogate) raises \<open>UnicodeEncodeError\<close>. Reading
  decodes strictly: overlong forms, surrogates, code points beyond U+10FFFF, stray
  continuation bytes and truncated sequences raise \<open>UnicodeDecodeError\<close>, for which \<open>None\<close>
  stands.
\<close>

definition continuation :: "nat \<Rightarrow> bool" where
  "continuation b = (0x80 \<le> b \<and> b < 0xC0)"

definition scalar :: "nat \<Rightarrow> bool" where
  "scalar c = (c < 0x110000 \<and> \<not> (0xD800 \<le> c \<and> c < 0xE000))"

definition encodable :: "pystr \<Rightarrow> bool" where
  "encodable s = list_all scalar s"

definition encode_char :: "nat \<Rightarrow> nat list" where
  "encode_char c =
     (if c < 0x80 then [c]
      else if c < 0x800 then [0xC0 + c div 64, 0x80 + c mod 64]
      else if c < 0x10000 then [0xE0 + c div 4096, 0x80 + c div 64 mod 64, 0x80 + c mod 64]
      else [0xF0 + c div 262144, 0x80 + c div 4096 mod 64, 0x80 + c div 64 mod 64,
            0x80 + c mod 64])"

definition utf8_encode :: "pystr \<Rightarrow> bytes" where
  "utf8_encode s = map of_nat (concat (map encode_char s))"

fun utf8_decode :: "nat list \<Rightarrow> pystr option" where
  "utf8_decode [] = Some []"
| "utf8_decode (b0 # bs) =
     (if b0 < 0x80 then map_option ((#) b0) (utf8_decode bs)
      else if 0xC0 \<le> b0 \<and> b0 < 0xE0 then
        (case bs of
           b1 # rest \<Rightarrow>
             (let c = (b0 - 0xC0) * 64 + (b1 - 0x80)
              in if continuation b1 \<and> 0x80 \<le> c
                 then map_option ((#) c) (utf8_decode rest) else None)
         | _ \<Rightarrow> None)
      else if 0xE0 \<le> b0 \<and> b0 < 0xF0 then
        (case bs of
           b1 # b2 # rest \<Rightarrow>
             (let c = (b0 - 0xE0) * 4096 + (b1 - 0x80) * 64 + (b2 - 0x80)
              in if continuation b1 \<and> continuation b2 \<and> 0x800 \<le> c \<and> scalar c
                 then map_option ((#) c) (utf8_decode rest) else None)
         | _ \<Rightarrow> None)
      else if 0xF0 \<le> b0 \<and> b0 < 0xF8 then
        (case bs of
           b1 # b2 # b3 # rest \<Rightarrow>
             (let c = (b0 - 0xF0) * 262144 + (b1 - 0x80) * 4096 + (b2 - 0x80) * 64 + (b3 - 0x80)
              in if continuation b1 \<and> continuation b2 \<and> continuation b3 \<and> 0x10000 \<le> c
                    \<and> scalar c
                 then map_option ((#) c) (utf8_decode rest) else None)
         | _ \<Rightarrow> None)
      else None)"

definition decode :: "bytes \<Rightarrow> pystr option" where
  "decode content = utf8_decode (map unat content)"

section \<open>local\_mqtt\_broker.py\<close>

text \<open>
  The message file is a sequence of bytes; \<open>None\<close> is a file that does not exist.
  \<open>json.dumps\<close> and \<open>json.loads\<close> belong to the Python library and are parameters of the
  model: \<open>dumps\<close> gives the text of a dictionary, and \<open>loads\<close> gives for a line the
  dictionary parsed, or says that the line is no JSON text (\<open>json.JSONDecodeError\<close>) or is
  JSON but no object (a number, a list, a string: a value without the method \<open>get\<close>).
\<close>

datatype parsed = JSONDecodeError | NonDict | Dict pydict

definition LF :: nat where
  "LF = 10"

definition CR :: nat where
  "CR = 13"

text \<open>
  \<open>publish\<close>. \<open>write_ok\<close> says whether opening and flushing the file go through; if not,
  or if the line cannot be encoded, the handler prints a warning and returns \<open>False\<close> (the
  file, opened for appending, exists by then in the second case). After the write the
  message is put on the queues subscribed in this process (\<open>subscriptions\<close> lists them by
  reference into the store \<open>queues\<close>), a full queue being passed over. The result is the
  value returned, the file and the store.
\<close>

definition notify :: "pydict \<Rightarrow> nat list \<Rightarrow> (nat \<Rightarrow> pyqueue) \<Rightarrow> (nat \<Rightarrow> pyqueue)" where
  "notify message callback_queues queues =
     fold (\<lambda>i qs. case put_nowait (qs i) message of None \<Rightarrow> qs | Some q' \<Rightarrow> qs(i := q'))
       callback_queues queues"

definition broker_message :: "pystr \<Rightarrow> pystr \<Rightarrow> pystr \<Rightarrow> pydict" where
  "broker_message topic payload timestamp =
     [ascii ''topic'' \<mapsto> PyStr topic, ascii ''payload'' \<mapsto> PyStr payload,
      ascii ''timestamp'' \<mapsto> PyStr timestamp]"

definition publish ::
  "(pydict \<Rightarrow> pystr) \<Rightarrow> bool \<Rightarrow> pystr \<Rightarrow> (pystr \<rightharpoonup> nat list) \<Rightarrow> (nat \<Rightarrow> pyqueue) \<Rightarrow>
   bytes option \<Rightarrow> pystr \<Rightarrow> pystr \<Rightarrow> bool \<times> bytes option \<times> (nat \<Rightarrow> pyqueue)" where
  "publish dumps write_ok timestamp subscriptions queues message_file topic payload =
     (let message = broker_message topic payload timestamp;
          line = dumps message @ [LF];
          old = (case message_file of None \<Rightarrow> [] | Some content \<Rightarrow> content)
      in if \<not> write_ok then (False, message_file, queues)
         else if \<not> encodable line then (False, Some old, queues)
         else
           (True, Some (old @ utf8_encode line),
            (case subscriptions topic of
               None \<Rightarrow> queues
             | Some callback_queues \<Rightarrow> notify message callback_queues queues)))"

text \<open>
  Reading the file in text mode: the lines end at \<open>LF\<close> or \<open>CR\<close> (universal newlines; the
  empty line between the two characters of \<open>CR LF\<close> is dropped with the other blank
  lines), and \<open>line.strip()\<close> removes the white space at both ends.
\<close>

fun split_lines :: "pystr \<Rightarrow> pystr list" where
  "split_lines [] = []"
| "split_lines (c # cs) =
     (if c = LF \<or> c = CR then [] # split_lines cs
      else (case split_lines cs of [] \<Rightarrow> [[c]] | l # ls \<Rightarrow> (c # l) # ls))"

definition read_new_lines :: "pystr \<Rightarrow> pystr list" where
  "read_new_lines text = filter (\<lambda>line. line \<noteq> []) (map str_strip (split_lines text))"

text \<open>
  The delivery of one message by the tailer: \<open>put_nowait\<close>, and on \<open>queue.Full\<close> the queue is
  emptied with \<open>get_nowait\<close> and the message put again; any exception in that is passed
  over. The result is the queue and whether the message was put.
\<close>

function drain :: "pyqueue \<Rightarrow> pyqueue option" where
  "drain q =
     (if queue_empty q then Some q
      else (case get_nowait q of None \<Rightarrow> None | Some (item, q') \<Rightarrow> drain q'))"
  by pat_completeness auto
termination
  by (relation "measure (\<lambda>q. length (items q))")
    (auto simp: get_nowait_def queue_empty_def split: list.splits)

definition deliver :: "pyqueue \<Rightarrow> pydict \<Rightarrow> pyqueue \<times> bool" where
  "deliver callback_queue message =
     (case put_nowait callback_queue message of
        Some q' \<Rightarrow> (q', True)
      | None \<Rightarrow>
          (case drain callback_queue of
             None \<Rightarrow> (callback_queue, False)
           | Some q0 \<Rightarrow>
               (case put_nowait q0 message of
                  Some q' \<Rightarrow> (q', True)
                | None \<Rightarrow> (q0, False))))"

text \<open>
  The loop over the new lines: the queue afterwards, the messages put on it in order, and
  whether the loop ran to its end. A line that is JSON but no object raises
  \<open>AttributeError\<close> at \<open>message.get\<close>; only \<open>json.JSONDecodeError\<close> is handled inside the
  loop, so this exception leaves it.
\<close>

fun process_lines ::
  "(pystr \<Rightarrow> parsed) \<Rightarrow> pystr list \<Rightarrow> pyqueue \<Rightarrow> pystr list \<Rightarrow> pyqueue \<times> pydict list \<times> bool" where
  "process_lines loads topics q [] = (q, [], True)"
| "process_lines loads topics q (line # lines) =
     (case loads line of
        JSONDecodeError \<Rightarrow> process_lines loads topics q lines
      | NonDict \<Rightarrow> (q, [], False)
      | Dict message \<Rightarrow>
          if dict_get message (ascii ''topic'') \<in> set (map PyStr topics) then
            (case deliver q message of
               (q', put) \<Rightarrow>
                 (case process_lines loads topics q' lines of
                    (q'', ms, done) \<Rightarrow> (q'', (if put then message # ms else ms), done)))
          else process_lines loads topics q lines)"

text \<open>
  One cycle of the \<open>while self.running\<close> loop of \<open>read_messages\<close>, on the file as it is in
  that cycle: the new \<open>last_position\<close>, the queue and the messages put on it. The lines are
  all read (and decoded) before the first is processed. When an exception leaves the
  block (the bytes from the offset on are no UTF-8, or a line is JSON but no object),
  \<open>last_position = f.tell()\<close> is not reached; the outer handler prints a warning and the
  loop goes on.
\<close>

definition reset_position :: "nat \<Rightarrow> nat \<Rightarrow> nat" where
  "reset_position file_size last_position = (if file_size < last_position then 0 else last_position)"

definition read_cycle ::
  "(pystr \<Rightarrow> parsed) \<Rightarrow> pystr list \<Rightarrow> bytes option \<Rightarrow> nat \<Rightarrow> pyqueue \<Rightarrow>
   nat \<times> pyqueue \<times> pydict list" where
  "read_cycle loads topics message_file last_position callback_queue =
     (case message_file of
        None \<Rightarrow> (last_position, callback_queue, [])
      | Some content \<Rightarrow>
          (let file_size = length content;
               last_position1 = reset_position file_size last_position
           in if file_size > last_position1 then
                (case decode (drop last_position1 content) of
                   None \<Rightarrow> (last_position1, callback_queue, [])
                 | Some text \<Rightarrow>
                     (case process_lines loads topics callback_queue (read_new_lines text) of
                        (q', ms, done) \<Rightarrow>
                          (if done then length content else last_position1, q', ms)))
              else (last_position1, callback_queue, [])))"

text \<open>
  \<open>read_messages\<close>: the cycles run while \<open>self.running\<close> holds, one for each state of the
  file in the list. The result is the offsets after each cycle, the queue and the messages
  put on it, in order.
\<close>

fun read_messages ::
  "(pystr \<Rightarrow> parsed) \<Rightarrow> pystr list \<Rightarrow> nat \<Rightarrow> pyqueue \<Rightarrow> bytes option list \<Rightarrow>
   nat list \<times> pyqueue \<times> pydict list" where
  "read_messages loads topics last_position q [] = ([], q, [])"
| "read_messages loads topics last_position q (message_file # files) =
     (case read_cycle loads topics message_file last_position q of
        (last_position', q', ms) \<Rightarrow>
          (case read_messages loads topics last_position' q' files of
             (ps, q'', ms') \<Rightarrow> (last_position' # ps, q'', ms @ ms')))"

text \<open>
  The messages among some lines that are addressed to the subscribed topics, in the order
  of the lines: what a tailer is to enqueue for them.
\<close>

definition on_topic :: "pystr list \<Rightarrow> pydict \<Rightarrow> bool" where
  "on_topic topics message = (dict_get message (ascii ''topic'') \<in> set (map PyStr topics))"

definition matching_messages :: "(pystr \<Rightarrow> parsed) \<Rightarrow> pystr list \<Rightarrow> pystr list \<Rightarrow> pydict list" where
  "matching_messages loads topics lines =
     concat (map (\<lambda>line. case loads line of
                            Dict message \<Rightarrow> if on_topic topics message then [message] else []
                          | _ \<Rightarrow> []) lines)"

text \<open>A line that parses to an object or is no JSON at all.\<close>

definition object_or_malformed :: "(pystr \<Rightarrow> parsed) \<Rightarrow> pystr \<Rightarrow> bool" where
  "object_or_malformed loads line = (loads line \<noteq> NonDict)"

section \<open>Publishers and a tailing subscriber\<close>

text \<open>
  A publishing process and a subscriber in another process that tails the message file:
  they share the file only. In each step a message is published (with the outcome of the
  write), or the tailer runs one cycle, or the subscriber takes the next message from its
  queue, if there is one. \<open>received\<close> lists what the subscriber has taken so far.
\<close>

datatype broker_op = Publish pystr pystr pystr bool | Poll | Get

record tailing =
  log_file :: "bytes option"
  publisher_queues :: "nat \<Rightarrow> pyqueue"
  position :: nat
  inbox :: pyqueue
  received :: "pydict list"

fun broker_step ::
  "(pydict \<Rightarrow> pystr) \<Rightarrow> (pystr \<Rightarrow> parsed) \<Rightarrow> pystr list \<Rightarrow> (pystr \<rightharpoonup> nat list) \<Rightarrow>
   tailing \<Rightarrow> broker_op \<Rightarrow> tailing" where
  "broker_step dumps loads topics subscriptions w (Publish topic payload timestamp write_ok) =
     (case publish dumps write_ok timestamp subscriptions (publisher_queues w) (log_file w)
             topic payload of
        (ok, file', queues') \<Rightarrow> w\<lparr>log_file := file', publisher_queues := queues'\<rparr>)"
| "broker_step dumps loads topics subscriptions w Poll =
     (case read_cycle loads topics (log_file w) (position w) (inbox w) of
        (position', q', ms) \<Rightarrow> w\<lparr>position := position', inbox := q'\<rparr>)"
| "broker_step dumps loads topics subscriptions w Get =
     (case get_nowait (inbox w) of
        None \<Rightarrow> w
      | Some (message, q') \<Rightarrow> w\<lparr>inbox := q', received := received w @ [message]\<rparr>)"

definition broker_run ::
  "(pydict \<Rightarrow> pystr) \<Rightarrow> (pystr \<Rightarrow> parsed) \<Rightarrow> pystr list \<Rightarrow> (pystr \<rightharpoonup> nat list) \<Rightarrow>
   tailing \<Rightarrow> broker_op list \<Rightarrow> tailing" where
  "broker_run dumps loads topics subscriptions w ops =
     fold (\<lambda>op w. broker_step dumps loads topics subscriptions w op) ops w"

text \<open>The messages published by a run of steps: those for which \<open>publish\<close> returns \<open>True\<close>.\<close>

fun published :: "(pydict \<Rightarrow> pystr) \<Rightarrow> broker_op list \<Rightarrow> pydict list" where
  "published dumps [] = []"
| "published dumps (Publish topic payload timestamp write_ok # ops) =
     (if write_ok \<and> encodable (dumps (broker_message topic payload timestamp) @ [LF])
      then broker_message topic payload timestamp # published dumps ops
      else published dumps ops)"
| "published dumps (Poll # ops) = published dumps ops"
| "published dumps (Get # ops) = published dumps ops"

text \<open>
  What the model asks of \<open>json.dumps\<close> and \<open>json.loads\<close> for a message: the text of the
  dictionary is one non-empty line without white space at its ends (it starts with an
  opening and ends with a closing brace, and line breaks inside strings are escaped), and
  parsing it gives the dictionary back.
\<close>

definition json_line :: "(pydict \<Rightarrow> pystr) \<Rightarrow> (pystr \<Rightarrow> parsed) \<Rightarrow> pydict \<Rightarrow> bool" where
  "json_line dumps loads message =
     (dumps message \<noteq> [] \<and> str_strip (dumps message) = dumps message
      \<and> LF \<notin> set (dumps message) \<and> CR \<notin> set (dumps message)
      \<and> loads (dumps message) = Dict message)"

text \<open>
  The text and the bytes of the message file after the messages \<open>ms\<close> were published to
  an empty file.
\<close>

definition text_of :: "(pydict \<Rightarrow> pystr) \<Rightarrow> pydict list \<Rightarrow> pystr" where
  "text_of dumps ms = concat (map (\<lambda>message. dumps message @ [LF]) ms)"

definition log_of :: "(pydict \<Rightarrow> pystr) \<Rightarrow> pydict list \<Rightarrow> bytes" where
  "log_of dumps ms = concat (map (\<lambda>message. utf8_encode (dumps message @ [LF])) ms)"

text \<open>
  The start: the empty message file that \<open>LocalMQTTBroker.__init__\<close> creates, the tailer
  at offset 0 and an empty queue of the given capacity.
\<close>

definition start :: "(nat \<Rightarrow> pyqueue) \<Rightarrow> int \<Rightarrow> tailing" where
  "start queues capacity =
     \<lparr>log_file = Some [], publisher_queues = queues, position = 0,
      inbox = \<lparr>maxsize = capacity, items = []\<rparr>, received = []\<rparr>"

text \<open>
  The state of the file, the tailer and the subscriber after the messages \<open>ms\<close> were
  published: the file holds their lines, each of them encodable, the offset stands after
  some of them, and what the subscriber has taken or still has queued is a subsequence of
  the messages on its topics before the offset.
\<close>

definition tail_inv ::
  "(pydict \<Rightarrow> pystr) \<Rightarrow> pystr list \<Rightarrow> tailing \<Rightarrow> pydict list \<Rightarrow> bool" where
  "tail_inv dumps topics w ms =
     (log_file w = Some (log_of dumps ms)
      \<and> list_all (\<lambda>message. encodable (dumps message @ [LF])) ms
      \<and> (\<exists>k\<le>length ms. position w = length (log_of dumps (take k ms))
            \<and> subseq (received w @ items (inbox w)) (filter (on_topic topics) (take k ms))))"

section \<open>mqtt\_client.py\<close>

text \<open>
  The two module constants, the fields of \<open>MQTTClient\<close> that \<open>send_command\<close> reads
  (\<open>client_set\<close> says that \<open>self.client\<close> is not \<open>None\<close>), and the process-wide local
  broker: whether \<open>get_broker\<close> has built it, its subscriptions and queues, and the message
  file.
\<close>

record mqtt_config =
  USE_LOCAL_BROKER :: bool
  LOCAL_BROKER_AVAILABLE :: bool

record mqtt_client =
  connected :: bool
  client_set :: bool

record transport =
  broker_exists :: bool
  broker_subscriptions :: "pystr \<rightharpoonup> nat list"
  broker_queues :: "nat \<Rightarrow> pyqueue"
  broker_file :: "bytes option"

text \<open>
  What the world outside does during one call of \<open>send_command\<close>: how a connection
  attempt to a real broker ends (the callback reports success, or a refusal, or nothing
  arrives within the timeout, or \<open>connect\<close> raises), whether the local broker can create
  and append to its file, the result code of a real \<open>publish\<close> (\<open>None\<close>: it raises), and
  the two readings of \<open>datetime.now().isoformat()\<close>.
\<close>

datatype connect_outcome = ConnAck | ConnRefused | NoAnswer | ConnectRaises

record transport_io =
  io_connect :: connect_outcome
  io_create_ok :: bool
  io_write_ok :: bool
  io_publish_rc :: "int option"
  io_send_time :: pystr
  io_publish_time :: pystr

definition connect :: "mqtt_config \<Rightarrow> connect_outcome \<Rightarrow> mqtt_client \<Rightarrow> bool \<times> mqtt_client" where
  "connect cfg net self =
     (if LOCAL_BROKER_AVAILABLE cfg \<and> USE_LOCAL_BROKER cfg
      then (True, self\<lparr>connected := True\<rparr>)
      else
        (case net of
           ConnAck \<Rightarrow> (True, self\<lparr>connected := True, client_set := True\<rparr>)
         | ConnRefused \<Rightarrow> (False, self\<lparr>connected := False, client_set := True\<rparr>)
         | NoAnswer \<Rightarrow> (connected self, self\<lparr>client_set := True\<rparr>)
         | ConnectRaises \<Rightarrow>
             if \<not> USE_LOCAL_BROKER cfg \<and> LOCAL_BROKER_AVAILABLE cfg
             then (True, self\<lparr>connected := True, client_set := True\<rparr>)
             else (False, self\<lparr>client_set := True\<rparr>)))"

text \<open>
  \<open>get_broker\<close> builds the broker on first use; \<open>__init__\<close> creates the empty message file
  if there is none. \<open>None\<close>: creating the file raised.
\<close>

definition get_broker :: "bool \<Rightarrow> transport \<Rightarrow> transport option" where
  "get_broker create_ok t =
     (if broker_exists t then Some t
      else if broker_file t \<noteq> None
        then Some (t\<lparr>broker_exists := True, broker_subscriptions := Map.empty\<rparr>)
      else if create_ok
        then Some (t\<lparr>broker_exists := True, broker_subscriptions := Map.empty,
                     broker_file := Some []\<rparr>)
      else None)"

definition dict_get_default :: "pydict \<Rightarrow> pystr \<Rightarrow> pyval \<Rightarrow> pyval" where
  "dict_get_default d k v = (case d k of None \<Rightarrow> v | Some x \<Rightarrow> x)"

text \<open>
  \<open>send_command\<close>: the value returned, the client and the broker afterwards. \<open>dumps\<close> is
  \<open>json.dumps\<close>, used for the payload here and for the line in \<open>publish\<close>. On the local path the value \<open>publish\<close> returns is not looked
  at. An exception inside the \<open>try\<close> block (the broker cannot be built, \<open>self.client\<close> is
  \<open>None\<close>, the real \<open>publish\<close> raises) gives \<open>False\<close>.
\<close>

definition command_message :: "pydict \<Rightarrow> pystr \<Rightarrow> pydict" where
  "command_message command time =
     [ascii ''type'' \<mapsto> dict_get command (ascii ''type''),
      ascii ''device'' \<mapsto> dict_get_default command (ascii ''device'') (PyStr []),
      ascii ''action'' \<mapsto> dict_get_default command (ascii ''action'') (PyStr []),
      ascii ''timestamp'' \<mapsto> PyStr time]"

definition send_command ::
  "mqtt_config \<Rightarrow> (pydict \<Rightarrow> pystr) \<Rightarrow> transport_io \<Rightarrow> pystr \<Rightarrow>
   mqtt_client \<Rightarrow> transport \<Rightarrow> pydict \<Rightarrow> bool \<times> mqtt_client \<times> transport" where
  "send_command cfg dumps io topic self t command =
     (case (if \<not> connected self then connect cfg (io_connect io) self else (True, self)) of
        (ready, self1) \<Rightarrow>
          if \<not> ready then (False, self1, t)
          else
            (let message = command_message command (io_send_time io);
                 payload = dumps message
             in if LOCAL_BROKER_AVAILABLE cfg \<and> (USE_LOCAL_BROKER cfg \<or> \<not> client_set self1) then
                  (case get_broker (io_create_ok io) t of
                     None \<Rightarrow> (False, self1, t)
                   | Some t1 \<Rightarrow>
                       (case publish dumps (io_write_ok io) (io_publish_time io)
                               (broker_subscriptions t1) (broker_queues t1) (broker_file t1)
                               topic payload of
                          (ok, file', queues') \<Rightarrow>
                            (True, self1, t1\<lparr>broker_queues := queues', broker_file := file'\<rparr>)))
                else if \<not> client_set self1 then (False, self1, t)
                else
                  (case io_publish_rc io of
                     None \<Rightarrow> (False, self1, t)
                   | Some rc \<Rightarrow> (rc = 0, self1, t))))"

section \<open>conversation\_manager.py\<close>

text \<open>
  A message of the history, and \<open>add_message\<close> on the \<open>deque(maxlen=max_history)\<close>: when
  the deque is full, appending drops its oldest entry.
\<close>

record chat_message =
  msg_role :: pystr
  msg_content :: pyval
  msg_timestamp :: pystr
  msg_command :: "pydict option"

definition add_message ::
  "nat \<Rightarrow> pystr \<Rightarrow> pyval \<Rightarrow> pystr \<Rightarrow> pydict option \<Rightarrow> chat_message list \<Rightarrow> chat_message list" where
  "add_message max_history r c time cmd history =
     (let extended = history @ [\<lparr>msg_role = r, msg_content = c, msg_timestamp = time,
                                  msg_command = cmd\<rparr>]
      in drop (length extended - max_history) extended)"

section \<open>model\_handler.py: format\_command\_message\<close>

definition truthy :: "pyval \<Rightarrow> bool" where
  "truthy v = (case v of PyNone \<Rightarrow> False | PyStr s \<Rightarrow> s \<noteq> [])"

text \<open>The text an f-string puts for a value.\<close>

definition py_str :: "pyval \<Rightarrow> pystr" where
  "py_str v = (case v of PyNone \<Rightarrow> ascii ''None'' | PyStr s \<Rightarrow> s)"

definition type_map :: "pyval \<Rightarrow> pystr" where
  "type_map ty =
     (if ty = PyStr (ascii ''light'') then [0x706F]
      else if ty = PyStr (ascii ''ac'') then [0x7A7A, 0x8C03]
      else if ty = PyStr (ascii ''window'') then [0x7A97, 0x6237]
      else if ty = PyStr (ascii ''temperature'') then [0x6E29, 0x5EA6, 0x68C0, 0x6D4B]
      else [0x672A, 0x77E5, 0x8BBE, 0x5907])"

definition format_command_message :: "pydict \<Rightarrow> pystr" where
  "format_command_message command =
     (let device = dict_get_default command (ascii ''device'') (PyStr []);
          action = dict_get_default command (ascii ''action'') (PyStr []);
          cmd_type = type_map (dict_get_default command (ascii ''type'') (PyStr []))
      in if dict_get command (ascii ''type'') = PyStr (ascii ''temperature'')
         then [0x6267, 0x884C] @ cmd_type
         else py_str action @ (if truthy device then py_str device else cmd_type))"

section \<open>voice\_assistant.py: one turn of the main loop\<close>

text \<open>
  What the collaborators answer during the turn for one utterance: the recognised text,
  the result of \<open>resolve_pronoun\<close>, the dictionaries of \<open>analyze_intent\<close> and
  \<open>recognize_command\<close>, the chat reply, whether synthesis and playback go through (when
  they raise, \<open>text_to_speech\<close> and \<open>play_audio_file\<close> catch the exception themselves), the
  readings of \<open>time.time()\<close> before the analysis and before the reply, the time stamps, and
  the outside of \<open>send_command\<close>.
\<close>

record collaborators =
  stt_text :: pystr
  resolved :: "pystr option"
  now_analysis :: real
  analysis :: pydict
  cmd_result :: pydict
  chat_response :: pystr
  now_reply :: real
  tts_ok :: bool
  play_ok :: bool
  user_time :: pystr
  assistant_time :: pystr
  state_time :: pystr
  send_io :: transport_io

text \<open>
  Synthesis and playback as they are observed: each records the text or whether it ran to
  its end, with the pause flag of the segmenter and the value of \<open>last_interaction_time\<close>
  at that moment.
\<close>

datatype effect = Synthesize pystr bool real | Play bool bool real

fun effect_paused :: "effect \<Rightarrow> bool" where
  "effect_paused (Synthesize text p time) = p"
| "effect_paused (Play completed p time) = p"

fun effect_time :: "effect \<Rightarrow> real" where
  "effect_time (Synthesize text p time) = time"
| "effect_time (Play completed p time) = time"

record assistant =
  last_interaction_time :: real
  conversation_history :: "chat_message list"
  device_store :: "pystr \<rightharpoonup> pydict"
  audio_paused :: bool
  mqtt_available :: bool
  mqtt :: mqtt_client
  broker :: transport
  effects :: "effect list"

definition ACTIVE_WINDOW :: real where
  "ACTIVE_WINDOW = 30"

definition max_history :: nat where
  "max_history = 10"

definition command_topic :: pystr where
  "command_topic = ascii ''smart_home/command''"

text \<open>
  The arbiter (\<open>if intent == "ignore"\<close>): the intent the turn goes on with, or \<open>None\<close> when
  the loop continues with the next utterance.
\<close>

definition arbitrate :: "bool \<Rightarrow> pystr \<Rightarrow> pyval \<Rightarrow> pyval option" where
  "arbitrate is_active text intent =
     (if intent = PyStr (ascii ''ignore'') then
        (if is_active \<and> length text > 3 then Some (PyStr (ascii ''chat'')) else None)
      else Some intent)"

text \<open>The branch \<open>intent == "command"\<close>: the reply text and the state.\<close>

definition handle_command ::
  "mqtt_config \<Rightarrow> (pydict \<Rightarrow> pystr) \<Rightarrow> collaborators \<Rightarrow> pyval \<Rightarrow>
   assistant \<Rightarrow> pystr \<times> assistant" where
  "handle_command cfg dumps c resolved_text st =
     (if dict_get (cmd_result c) (ascii ''type'') \<noteq> PyStr (ascii ''none'') then
        (let formatted_cmd = format_command_message (cmd_result c) in
         case
           (if mqtt_available st then
              (case send_command cfg dumps (send_io c) command_topic (mqtt st)
                      (broker st) (cmd_result c) of
                 (success, mqtt', broker') \<Rightarrow>
                   if success then
                     ([0x597D, 0x7684, 0xFF0C] @ formatted_cmd,
                      st\<lparr>mqtt := mqtt', broker := broker',
                         device_store := update_state (state_time c) (device_store st) (cmd_result c)\<rparr>)
                   else
                     ([0x62B1, 0x6B49, 0xFF0C] @ formatted_cmd @ [0x5931, 0x8D25, 0x4E86],
                      st\<lparr>mqtt := mqtt', broker := broker'\<rparr>))
            else
              ([0x6211, 0x660E, 0x767D, 0x4E86, 0xFF0C] @ formatted_cmd
                 @ [0xFF0C, 0x4F46, 0x662F, 0x4D, 0x51, 0x54, 0x54, 0x672A, 0x8FDE, 0x63A5, 0x3002],
               st))
         of (response_text, st1) \<Rightarrow>
           (response_text,
            st1\<lparr>conversation_history :=
                  add_message max_history (ascii ''assistant'') (PyStr response_text)
                    (assistant_time c) (Some (cmd_result c))
                    (add_message max_history (ascii ''user'') resolved_text (user_time c) None
                       (conversation_history st1))\<rparr>))
      else
        ([0x62B1, 0x6B49, 0xFF0C, 0x6211, 0x6CA1, 0x542C, 0x61C2, 0x5177, 0x4F53, 0x7684, 0x6307,
          0x4EE4, 0x3002], st))"

text \<open>The branch \<open>intent == "chat"\<close>.\<close>

definition handle_chat :: "collaborators \<Rightarrow> pyval \<Rightarrow> assistant \<Rightarrow> pystr \<times> assistant" where
  "handle_chat c resolved_text st =
     (chat_response c,
      st\<lparr>conversation_history :=
           add_message max_history (ascii ''assistant'') (PyStr (chat_response c))
             (assistant_time c) None
             (add_message max_history (ascii ''user'') resolved_text (user_time c) None
                (conversation_history st))\<rparr>)"

text \<open>
  The reply (\<open>if should_reply and response_text\<close>), statement by statement: the activity
  time is set, the segmenter is paused, the text is synthesised, the file is played if
  there is one, the segmenter is resumed.
\<close>

definition pause :: "assistant \<Rightarrow> assistant" where
  "pause st = st\<lparr>audio_paused := True\<rparr>"

definition resume :: "assistant \<Rightarrow> assistant" where
  "resume st = st\<lparr>audio_paused := False\<rparr>"

definition text_to_speech :: "collaborators \<Rightarrow> pystr \<Rightarrow> assistant \<Rightarrow> bool \<times> assistant" where
  "text_to_speech c text st =
     (tts_ok c,
      st\<lparr>effects := effects st @ [Synthesize text (audio_paused st) (last_interaction_time st)]\<rparr>)"

definition play_audio_file :: "collaborators \<Rightarrow> assistant \<Rightarrow> assistant" where
  "play_audio_file c st =
     st\<lparr>effects := effects st @ [Play (play_ok c) (audio_paused st) (last_interaction_time st)]\<rparr>"

definition speak_reply :: "collaborators \<Rightarrow> pystr \<Rightarrow> assistant \<Rightarrow> assistant" where
  "speak_reply c response_text st =
     (let st1 = st\<lparr>last_interaction_time := now_reply c\<rparr>;
          st2 = pause st1
      in case text_to_speech c response_text st2 of
           (tts_file, st3) \<Rightarrow>
             resume (if tts_file then play_audio_file c st3 else st3))"

text \<open>
  The text the turn works with: the recognised text, replaced by the result of
  \<open>resolve_pronoun\<close> if there is one, replaced by the \<open>corrected_text\<close> of the analysis if
  that differs.
\<close>

definition resolve_text :: "collaborators \<Rightarrow> pyval" where
  "resolve_text c =
     (let text = stt_text c;
          resolved_text0 =
            (case resolved c of None \<Rightarrow> text | Some r \<Rightarrow> if r \<noteq> [] then r else text);
          corrected_text =
            dict_get_default (analysis c) (ascii ''corrected_text'') (PyStr resolved_text0)
      in if corrected_text \<noteq> PyStr resolved_text0 then corrected_text
         else PyStr resolved_text0)"

text \<open>The turn for one utterance taken from the queue.\<close>

definition process_utterance ::
  "mqtt_config \<Rightarrow> (pydict \<Rightarrow> pystr) \<Rightarrow> collaborators \<Rightarrow> assistant \<Rightarrow> assistant" where
  "process_utterance cfg dumps c st =
     (let text = stt_text c in
      if text = [] \<or> length (str_strip text) = 0 then st
      else
        (let is_active = (now_analysis c - last_interaction_time st < ACTIVE_WINDOW);
             intent0 = dict_get_default (analysis c) (ascii ''intent'') (PyStr (ascii ''ignore''));
             resolved_text = resolve_text c
         in case arbitrate is_active text intent0 of
              None \<Rightarrow> st
            | Some intent \<Rightarrow>
                (case
                   (if intent = PyStr (ascii ''command'') then
                      (case handle_command cfg dumps c resolved_text st of
                         (response_text, st1) \<Rightarrow> (response_text, True, st1))
                    else if intent = PyStr (ascii ''chat'') then
                      (case handle_chat c resolved_text st of
                         (response_text, st1) \<Rightarrow> (response_text, True, st1))
                    else ([], False, st))
                 of (response_text, should_reply, st1) \<Rightarrow>
                   if should_reply \<and> response_text \<noteq> [] then speak_reply c response_text st1
                   else st1)))"

section \<open>Example data\<close>

text \<open>
  Two messages on the topic \<open>cmd\<close> and, for the examples below, a parser and a printer
  that know them by the lines \<open>a\<close> and \<open>b\<close>; the line \<open>5\<close> is JSON but no object, and every
  other line is no JSON. The example file holds the lines \<open>a\<close>, \<open>zz\<close> and \<open>b\<close>.
\<close>

definition message1 :: pydict where
  "message1 = broker_message (ascii ''cmd'') (ascii ''1'') (ascii ''t1'')"

definition message2 :: pydict where
  "message2 = broker_message (ascii ''cmd'') (ascii ''2'') (ascii ''t2'')"

definition example_loads :: "pystr \<Rightarrow> parsed" where
  "example_loads line =
     (if line = ascii ''a'' then Dict message1
      else if line = ascii ''b'' then Dict message2
      else if line = ascii ''5'' then NonDict
      else JSONDecodeError)"

definition example_dumps :: "pydict \<Rightarrow> pystr" where
  "example_dumps message =
     (if dict_get message (ascii ''payload'') = PyStr (ascii ''1'') then ascii ''a''
      else if dict_get message (ascii ''payload'') = PyStr (ascii ''2'') then ascii ''b''
      else ascii ''c'')"



text \<open>
  Three files a tailer cannot get past: one that starts with a byte that is no UTF-8, one
  whose second line is JSON but no object, and (read from offset 1) one that starts with
  the three bytes of U+706F.
\<close>

definition undecodable_log :: bytes where
  "undecodable_log = [0xFF, 0x0A, 0x61, 0x0A]"

definition number_log :: bytes where
  "number_log = [0x61, 0x0A, 0x35, 0x0A, 0x62, 0x0A]"

definition reset_log :: bytes where
  "reset_log = [0xE7, 0x81, 0xAF, 0x0A, 0x61, 0x0A]"

definition example_queue :: pyqueue where
  "example_queue = \<lparr>maxsize = 100, items = []\<rparr>"

definition example_ops :: "broker_op list" where
  "example_ops =
     [Publish (ascii ''cmd'') (ascii ''1'') (ascii ''t1'') True, Poll, Get,
      Publish (ascii ''cmd'') (ascii ''3'') (ascii ''t3'') False,
      Publish (ascii ''cmd'') (ascii ''2'') (ascii ''t2'') True, Poll, Get, Get]"

text \<open>
  A turn and an assistant for the examples: the local broker is in use and connected, the
  last reply was given at time 100, the utterance "hello there" is recognised at time 110
  and classified as \<open>ignore\<close>; the chat reply would be "hi", the command recognised would
  switch the light on; synthesis fails and the message file cannot be written.
\<close>

definition example_config :: mqtt_config where
  "example_config = \<lparr>USE_LOCAL_BROKER = True, LOCAL_BROKER_AVAILABLE = True\<rparr>"

definition example_command :: pydict where
  "example_command =
     [ascii ''type'' \<mapsto> PyStr (ascii ''light''), ascii ''device'' \<mapsto> PyStr [0x706F],
      ascii ''action'' \<mapsto> PyStr action_on]"

definition example_io :: transport_io where
  "example_io =
     \<lparr>io_connect = ConnAck, io_create_ok = True, io_write_ok = False, io_publish_rc = None,
      io_send_time = ascii ''t1'', io_publish_time = ascii ''t2''\<rparr>"

definition example_turn :: collaborators where
  "example_turn =
     \<lparr>stt_text = ascii ''hello there'', resolved = None, now_analysis = 110,
      analysis = [ascii ''intent'' \<mapsto> PyStr (ascii ''ignore'')],
      cmd_result = example_command, chat_response = ascii ''hi'', now_reply = 112,
      tts_ok = False, play_ok = True, user_time = ascii ''t3'', assistant_time = ascii ''t4'',
      state_time = ascii ''t5'', send_io = example_io\<rparr>"

definition example_client :: mqtt_client where
  "example_client = \<lparr>connected = True, client_set = False\<rparr>"

definition example_transport :: transport where
  "example_transport =
     \<lparr>broker_exists = True, broker_subscriptions = Map.empty,
      broker_queues = (\<lambda>i. example_queue), broker_file = Some []\<rparr>"

definition example_assistant :: assistant where
  "example_assistant =
     \<lparr>last_interaction_time = 100, conversation_history = [], device_store = init_devices,
      audio_paused = False, mqtt_available = True, mqtt = example_client,
      broker = example_transport, effects = []\<rparr>"

section \<open>Properties of the energy\<close>

lemma sqrt_gt_iff: "0 \<le> t \<Longrightarrow> (sqrt m > t) = (m > t\<^sup>2)"
proof -
  assume t: "0 \<le> t"
  have "(sqrt (t\<^sup>2) < sqrt m) = (t\<^sup>2 < m)" by (rule real_sqrt_less_iff)
  with t show ?thesis by simp
qed

lemma sint_square_small:
  fixes x :: "16 word"
  assumes "\<bar>sint x\<bar> \<le> 181"
  shows "sint (x * x) = sint x * sint x"
proof -
  have "\<bar>sint x\<bar>\<^sup>2 \<le> 181\<^sup>2" using assms by (intro power_mono) auto
  then have u: "sint x * sint x < 2 ^ 15" by (simp add: power2_eq_square)
  have l: "- (2 ^ 15) \<le> sint x * sint x"
    by (rule order_trans [of _ 0]) simp_all
  have "sint (x * x) = signed_take_bit (LENGTH(16) - 1) (sint x * sint x)"
    by (rule sint_word_ariths)
  also have "\<dots> = sint x * sint x"
    using u l by (simp add: signed_take_bit_int_eq_self)
  finally show ?thesis .
qed

lemma mean_sq_small:
  assumes "\<forall>x\<in>set a. \<bar>sint x\<bar> \<le> 181"
  shows "mean_sq a = (\<Sum>x\<leftarrow>map sint a. (real_of_int x)\<^sup>2) / real (length a)"
proof -
  have "map (\<lambda>x. real_of_int (sint (x * x))) a = map (\<lambda>x. (real_of_int (sint x))\<^sup>2) a"
  proof (rule map_cong [OF refl])
    fix x assume "x \<in> set a"
    with assms have "sint (x * x) = sint x * sint x" by (intro sint_square_small) auto
    then show "real_of_int (sint (x * x)) = (real_of_int (sint x))\<^sup>2"
      by (simp only: of_int_mult power2_eq_square)
  qed
  then have "(\<Sum>x\<leftarrow>a. real_of_int (sint (x * x))) = (\<Sum>x\<leftarrow>map sint a. (real_of_int x)\<^sup>2)"
    by (simp only: map_map comp_def)
  then show ?thesis by (simp add: mean_sq_def)
qed

lemma calculate_energy_small:
  assumes "frombuffer data = Some a" "a \<noteq> []" "\<forall>x\<in>set a. \<bar>sint x\<bar> \<le> 181"
  shows "calculate_energy data = Some (rms_spec (map sint a))"
proof -
  have "0 \<le> (\<Sum>x\<leftarrow>map sint a. (real_of_int x)\<^sup>2)"
    by (rule sum_list_nonneg) auto
  then have "\<not> mean_sq a < 0"
    unfolding mean_sq_small [OF assms(3)] by (simp add: not_less)
  with assms show ?thesis
    by (simp add: calculate_energy_def rms_spec_def mean_sq_small [OF assms(3)])
qed

text \<open>
  C9. The energy is documented as the root-mean-square of the samples, and it is that for
  frames whose samples have magnitude at most 181 (\<open>calculate_energy_small\<close>). Beyond
  that the squares overflow: a frame holding the single sample 256 (bytes \<open>00 01\<close>) has
  root-mean-square 256, but its square \<open>65536\<close> wraps to \<open>0\<close> in 16-bit arithmetic, and the
  computed energy is 0.
\<close>

theorem energy_wraps_at_256:
  "frombuffer [0x00, 0x01] = Some [256] \<and> sint (256 :: 16 word) = 256
   \<and> calculate_energy [0x00, 0x01] = Some 0
   \<and> rms_spec [256] = 256"
  by (simp add: calculate_energy_def mean_sq_def rms_spec_def word_cat_eq)

section \<open>Properties of the segmenter\<close>

lemma loop_quiet_idle:
  "\<forall>e\<in>set evs. quiet th e \<Longrightarrow> \<not> is_speaking s \<Longrightarrow>
   listen_loop th sl s (evs @ rest) = listen_loop th sl s rest"
proof (induction evs)
  case Nil
  then show ?case by simp
next
  case (Cons e evs)
  then show ?case by (cases e) (auto simp: listen_step_def split: option.splits)
qed

lemma loop_loud_speaking:
  "\<forall>e\<in>set evs. loud th e \<Longrightarrow> is_speaking s \<Longrightarrow> evs \<noteq> [] \<Longrightarrow>
   listen_loop th sl s (evs @ rest) =
   listen_loop th sl (s\<lparr>frames := frames s @ map data_of evs, silence_start := None\<rparr>) rest"
proof (induction evs arbitrary: s)
  case Nil
  then show ?case by simp
next
  case (Cons e evs)
  show ?case
  proof (cases "evs = []")
    case True
    with Cons.prems show ?thesis
      by (cases e) (auto simp: listen_step_def Let_def split: option.splits)
  next
    case False
    obtain d p t where e: "e = Frame d p t" using Cons.prems(1) by (cases e) auto
    let ?s1 = "s\<lparr>frames := frames s @ [d], silence_start := None\<rparr>"
    from Cons.prems e have step: "listen_step th sl s d p t = Some (?s1, None)"
      by (auto simp: listen_step_def Let_def split: option.splits)
    have "listen_loop th sl ?s1 (evs @ rest) =
          listen_loop th sl (?s1\<lparr>frames := frames ?s1 @ map data_of evs, silence_start := None\<rparr>) rest"
      using Cons.prems False by (intro Cons.IH) auto
    with step e show ?thesis by simp
  qed
qed

lemma loop_loud_idle:
  assumes "\<forall>e\<in>set evs. loud th e" "\<not> is_speaking s" "evs \<noteq> []"
  shows "listen_loop th sl s (evs @ rest) =
   listen_loop th sl (s\<lparr>is_speaking := True, frames := map data_of evs, silence_start := None\<rparr>) rest"
proof -
  obtain e es where evs: "evs = e # es" using assms(3) by (cases evs) auto
  obtain d p t where e: "e = Frame d p t" using assms(1) evs by (cases e) auto
  let ?s1 = "s\<lparr>is_speaking := True, frames := [d], silence_start := None\<rparr>"
  from assms evs e have step: "listen_step th sl s d p t = Some (?s1, None)"
    by (auto simp: listen_step_def Let_def split: option.splits)
  show ?thesis
  proof (cases "es = []")
    case True
    with step evs e show ?thesis by simp
  next
    case False
    have "listen_loop th sl ?s1 (es @ rest) =
          listen_loop th sl (?s1\<lparr>frames := frames ?s1 @ map data_of es, silence_start := None\<rparr>) rest"
      using assms evs False by (intro loop_loud_speaking) auto
    with step evs e show ?thesis by simp
  qed
qed

lemma loop_quiet_waiting:
  "\<forall>e\<in>set evs. quiet th e \<and> clock_of e - t0 \<le> sl \<Longrightarrow> is_speaking s \<Longrightarrow>
   silence_start s = Some t0 \<Longrightarrow>
   listen_loop th sl s (evs @ rest) =
   listen_loop th sl (s\<lparr>frames := frames s @ map data_of evs\<rparr>) rest"
proof (induction evs arbitrary: s)
  case Nil
  then show ?case by simp
next
  case (Cons e evs)
  obtain d p t where e: "e = Frame d p t" using Cons.prems(1) by (cases e) auto
  let ?s1 = "s\<lparr>frames := frames s @ [d]\<rparr>"
  from Cons.prems e have step: "listen_step th sl s d p t = Some (?s1, None)"
    by (auto simp: listen_step_def Let_def split: option.splits)
  have "listen_loop th sl ?s1 (evs @ rest) =
        listen_loop th sl (?s1\<lparr>frames := frames ?s1 @ map data_of evs\<rparr>) rest"
    using Cons.prems by (intro Cons.IH) auto
  with step e show ?case by simp
qed

lemma step_quiet_first:
  "quiet th (Frame d p t) \<Longrightarrow> is_speaking s \<Longrightarrow> silence_start s = None \<Longrightarrow>
   listen_step th sl s d p t =
   Some (s\<lparr>frames := frames s @ [d], silence_start := Some t\<rparr>, None)"
  by (auto simp: listen_step_def Let_def split: option.splits)

lemma step_quiet_timeout:
  "quiet th (Frame d p t) \<Longrightarrow> is_speaking s \<Longrightarrow> silence_start s = Some t0 \<Longrightarrow> t - t0 > sl \<Longrightarrow>
   listen_step th sl s d p t =
   Some (s\<lparr>frames := [], is_speaking := False, silence_start := None\<rparr>,
         Some (concat (frames s @ [d])))"
  by (auto simp: listen_step_def Let_def split: option.splits)

text \<open>
  C1, as the code has it. Take any frames that are quiet, then a non-empty run \<open>L\<close> of
  frames above the threshold, then quiet frames: \<open>s0\<close>, which arms the silence timer,
  frames \<open>mid\<close> read while the timer has not run longer than \<open>silence_limit\<close>, the first
  frame \<open>z\<close> read after it has, and any quiet frames \<open>post\<close>. The segmenter, never paused,
  yields exactly one utterance. It is the concatenation of all frames from the first frame
  of \<open>L\<close> up to and including \<open>z\<close>: the quiet frames read while the timer ran belong to the
  utterance, so its byte length is the sum of the lengths of the frames of \<open>L\<close>, \<open>s0\<close>,
  \<open>mid\<close> and \<open>z\<close>.
\<close>

theorem segmentation_one_utterance:
  assumes pre: "\<forall>e\<in>set pre. quiet th e"
    and L: "L \<noteq> []" "\<forall>e\<in>set L. loud th e"
    and s0: "quiet th s0"
    and mid: "\<forall>e\<in>set mid. quiet th e \<and> clock_of e - clock_of s0 \<le> sl"
    and z: "quiet th z" "clock_of z - clock_of s0 > sl"
    and post: "\<forall>e\<in>set post. quiet th e"
  shows "listen_for_speech th sl (pre @ L @ s0 # mid @ z # post) =
           ([concat (map data_of (L @ s0 # mid @ [z]))], idle, Running)
         \<and> length (concat (map data_of (L @ s0 # mid @ [z]))) =
           (\<Sum>e\<leftarrow>L @ s0 # mid @ [z]. length (data_of e))"
proof -
  obtain d0 p0 t0 where e0: "s0 = Frame d0 p0 t0" using s0 by (cases s0) auto
  obtain dz pz tz where ez: "z = Frame dz pz tz" using z(1) by (cases z) auto
  let ?a = "idle\<lparr>is_speaking := True, frames := map data_of L, silence_start := None\<rparr>"
  let ?b = "?a\<lparr>frames := frames ?a @ [d0], silence_start := Some t0\<rparr>"
  let ?c = "?b\<lparr>frames := frames ?b @ map data_of mid\<rparr>"
  have 1: "listen_loop th sl idle (pre @ L @ s0 # mid @ z # post) =
           listen_loop th sl idle (L @ s0 # mid @ z # post)"
    using pre by (intro loop_quiet_idle) (auto simp: idle_def)
  have 2: "listen_loop th sl idle (L @ s0 # mid @ z # post) =
           listen_loop th sl ?a (s0 # mid @ z # post)"
    using L by (intro loop_loud_idle) (auto simp: idle_def)
  have 3: "listen_loop th sl ?a (s0 # mid @ z # post) = listen_loop th sl ?b (mid @ z # post)"
    using step_quiet_first[of th d0 p0 t0 ?a sl] s0 e0 by simp
  have 4: "listen_loop th sl ?b (mid @ z # post) = listen_loop th sl ?c (z # post)"
    using mid e0 by (intro loop_quiet_waiting[where ?t0.0 = t0]) auto
  have 5: "listen_loop th sl ?c (z # post) =
     (case listen_loop th sl idle post of (ys, r) \<Rightarrow> (concat (frames ?c @ [dz]) # ys, r))"
    using step_quiet_timeout[of th dz pz tz ?c t0 sl] z ez e0 by (simp add: idle_def)
  have 6: "listen_loop th sl idle post = ([], idle, Running)"
    using loop_quiet_idle[of post th idle sl "[]"] post by (simp add: idle_def)
  have "listen_for_speech th sl (pre @ L @ s0 # mid @ z # post) =
           ([concat (map data_of (L @ s0 # mid @ [z]))], idle, Running)"
    unfolding listen_for_speech_def 1 2 3 4 5 6 using e0 ez by simp
  moreover have "length (concat (map data_of (L @ s0 # mid @ [z]))) =
           (\<Sum>e\<leftarrow>L @ s0 # mid @ [z]. length (data_of e))"
    by (simp add: length_concat comp_def)
  ultimately show ?thesis by simp
qed

lemma energy_100: "calculate_energy [100, 0] = Some 100"
  by (simp add: calculate_energy_def mean_sq_def word_cat_eq)

lemma energy_0: "calculate_energy [0, 0] = Some 0"
  by (simp add: calculate_energy_def mean_sq_def word_cat_eq)

theorem segmentation_one_utterance_witness:
  "quiet 30 (Frame [0, 0] False 0)
   \<and> loud 30 (Frame [100, 0] False 1)
   \<and> quiet 30 (Frame [0, 0] False 2)
   \<and> quiet 30 (Frame [0, 0] False (5 / 2))
   \<and> clock_of (Frame [0, 0] False (5 / 2)) - clock_of (Frame [0, 0] False 2) \<le> 1
   \<and> quiet 30 (Frame [0, 0] False 4)
   \<and> clock_of (Frame [0, 0] False 4) - clock_of (Frame [0, 0] False 2) > 1
   \<and> quiet 30 (Frame [0, 0] False 5)
   \<and> listen_for_speech 30 1
        [Frame [0, 0] False 0, Frame [100, 0] False 1, Frame [0, 0] False 2,
         Frame [0, 0] False (5 / 2), Frame [0, 0] False 4, Frame [0, 0] False 5]
      = ([[100, 0, 0, 0, 0, 0, 0, 0]], idle, Running)"
  using segmentation_one_utterance [of "[Frame [0, 0] False 0]" 30 "[Frame [100, 0] False 1]"
      "Frame [0, 0] False 2" "[Frame [0, 0] False (5 / 2)]" 1 "Frame [0, 0] False 4"
      "[Frame [0, 0] False 5]"]
  by (simp add: energy_100 energy_0)

text \<open>
  The claim C1 as it is worded ends the utterance with the last frame before the silence
  gap. On a frame above the threshold followed by two quiet frames two seconds apart
  (threshold 30 and silence limit 1 second, the values \<open>main\<close> passes), one
  utterance of 6 bytes is yielded, while the frames from the first frame above the
  threshold through the last frame before the gap are the single first frame of 2 bytes.
\<close>

theorem segmentation_gap_counterexample:
  "loud 30 (Frame [100, 0] False 0) \<and> quiet 30 (Frame [0, 0] False 1)
   \<and> quiet 30 (Frame [0, 0] False 3)
   \<and> fst (listen_for_speech 30 1
        [Frame [100, 0] False 0, Frame [0, 0] False 1, Frame [0, 0] False 3])
      = [[100, 0, 0, 0, 0, 0]]
   \<and> length [100, 0, 0, 0, 0, 0 :: 8 word] \<noteq> length (data_of (Frame [100, 0] False 0))"
  by (simp add: listen_for_speech_def listen_step_def idle_def energy_100 energy_0)

lemma loop_paused:
  "\<forall>e\<in>set evs. paused_frame e \<Longrightarrow>
   listen_loop th sl s (evs @ rest) =
   listen_loop th sl
     (if is_speaking s \<and> evs \<noteq> []
      then s\<lparr>is_speaking := False, frames := [], silence_start := None\<rparr> else s) rest"
proof (induction evs arbitrary: s)
  case Nil
  then show ?case by simp
next
  case (Cons e evs)
  then show ?case by (cases e) (auto simp: listen_step_def)
qed

text \<open>
  C3. While the pause flag is set, every frame read is discarded: no utterance is yielded
  over any run \<open>evs\<close> of frames read while paused. If the segmenter was speaking, the first
  such frame drops the buffered frames and returns it to the idle state, so that whatever
  is read afterwards (\<open>rest\<close>) is segmented as by a fresh segmenter and the dropped segment
  is never yielded; if it was idle it stays as it was.
\<close>

theorem pause_suppression:
  assumes "\<forall>e\<in>set evs. paused_frame e"
  shows "fst (listen_loop th sl s evs) = []
         \<and> (is_speaking s \<and> evs \<noteq> [] \<longrightarrow>
              listen_loop th sl s (evs @ rest) = listen_loop th sl idle rest
              \<and> listen_loop th sl s evs = ([], idle, Running))
         \<and> (\<not> is_speaking s \<longrightarrow>
              listen_loop th sl s (evs @ rest) = listen_loop th sl s rest)"
proof -
  have a: "listen_loop th sl s (evs @ rest) =
      listen_loop th sl
        (if is_speaking s \<and> evs \<noteq> []
         then s\<lparr>is_speaking := False, frames := [], silence_start := None\<rparr> else s) rest"
    for rest
    using assms by (rule loop_paused)
  have b: "s\<lparr>is_speaking := False, frames := [], silence_start := None\<rparr> = idle"
    by (simp add: idle_def)
  from a [of "[]"] have "fst (listen_loop th sl s evs) = []" by (simp split: if_splits)
  moreover from a [of "[]"] b
  have "is_speaking s \<and> evs \<noteq> [] \<longrightarrow> listen_loop th sl s evs = ([], idle, Running)"
    by simp
  ultimately show ?thesis using a [of rest] b by simp
qed

theorem pause_suppression_witness:
  "paused_frame (Frame [100, 0] True 1) \<and> paused_frame (Frame [100, 0] True 2)
   \<and> is_speaking \<lparr>frames = [[100, 0]], silence_start = None, is_speaking = True\<rparr>
   \<and> listen_loop 30 1 \<lparr>frames = [[100, 0]], silence_start = None, is_speaking = True\<rparr>
        [Frame [100, 0] True 1, Frame [100, 0] True 2] = ([], idle, Running)
   \<and> listen_loop 30 1 \<lparr>frames = [[100, 0]], silence_start = None, is_speaking = True\<rparr>
        ([Frame [100, 0] True 1, Frame [100, 0] True 2]
          @ [Frame [0, 0] False 3, Frame [0, 0] False 5])
      = ([], idle, Running)"
  using pause_suppression [of "[Frame [100, 0] True 1, Frame [100, 0] True 2]" 30 1
      "\<lparr>frames = [[100, 0]], silence_start = None, is_speaking = True\<rparr>"
      "[Frame [0, 0] False 3, Frame [0, 0] False 5]"]
  by (simp add: listen_step_def idle_def energy_0)

section \<open>Properties of the device state\<close>

lemma dom_update_state: "dom (update_state t devices command) = dom devices"
  by (auto simp: update_state_def Let_def split: pyval.splits option.splits if_splits)

lemma update_state_unknown:
  assumes d: "dom devices = {ascii ''light'', ascii ''ac'', ascii ''window'', ascii ''temperature''}"
    and n: "dict_get command (ascii ''type'') \<notin>
              PyStr ` {ascii ''light'', ascii ''ac'', ascii ''window'', ascii ''temperature''}"
  shows "update_state t devices command = devices"
proof (cases "dict_get command (ascii ''type'')")
  case PyNone
  then show ?thesis by (simp add: update_state_def)
next
  case (PyStr x)
  with n have "x \<notin> dom devices" using d by auto
  then have "devices x = None" by auto
  with PyStr show ?thesis by (simp add: update_state_def)
qed

lemma update_state_other_action:
  "ty \<in> {ascii ''light'', ascii ''ac'', ascii ''window''} \<Longrightarrow> devices ty = Some info \<Longrightarrow>
   dict_get command (ascii ''type'') = PyStr ty \<Longrightarrow>
   dict_get command (ascii ''action'') \<notin> {PyStr action_on, PyStr action_off} \<Longrightarrow>
   update_state t devices command =
     devices(ty \<mapsto> info(ascii ''last_action'' \<mapsto> dict_get command (ascii ''action''),
                         ascii ''last_update'' \<mapsto> PyStr t))"
  by (auto simp: update_state_def Let_def ascii_def)

text \<open>
  C10. With the device store holding the four devices of \<open>__init__\<close>, a command whose type
  is none of \<open>light\<close>, \<open>ac\<close>, \<open>window\<close>, \<open>temperature\<close> (or is missing) leaves the whole store
  as it is. For a command of type \<open>light\<close>, \<open>ac\<close> or \<open>window\<close> whose action is neither of
  the two known actions, only that device's entry changes: its \<open>last_action\<close> and
  \<open>last_update\<close> are overwritten and its \<open>state\<close> stays. No call changes the set of device
  keys.
\<close>

theorem update_state_frame:
  "(dom devices = {ascii ''light'', ascii ''ac'', ascii ''window'', ascii ''temperature''} \<longrightarrow>
      dict_get command (ascii ''type'') \<notin>
        PyStr ` {ascii ''light'', ascii ''ac'', ascii ''window'', ascii ''temperature''} \<longrightarrow>
      update_state t devices command = devices)
   \<and> (ty \<in> {ascii ''light'', ascii ''ac'', ascii ''window''} \<longrightarrow> devices ty = Some info \<longrightarrow>
        dict_get command (ascii ''type'') = PyStr ty \<longrightarrow>
        dict_get command (ascii ''action'') \<notin> {PyStr action_on, PyStr action_off} \<longrightarrow>
        update_state t devices command =
          devices(ty \<mapsto> info(ascii ''last_action'' \<mapsto> dict_get command (ascii ''action''),
                              ascii ''last_update'' \<mapsto> PyStr t))
        \<and> (\<forall>info'. update_state t devices command ty = Some info' \<longrightarrow>
               info' (ascii ''state'') = info (ascii ''state'')
               \<and> info' (ascii ''last_action'') = Some (dict_get command (ascii ''action''))
               \<and> info' (ascii ''last_update'') = Some (PyStr t)))
   \<and> dom (update_state t devices command) = dom devices"
proof -
  have 3: "ascii ''state'' \<noteq> ascii ''last_action''" "ascii ''state'' \<noteq> ascii ''last_update''"
    "ascii ''last_action'' \<noteq> ascii ''last_update''"
    by (simp_all add: ascii_def)
  show ?thesis
    using update_state_unknown [of devices command t]
      update_state_other_action [of ty devices info command t]
      3 dom_update_state [of t devices command]
    by auto
qed

theorem update_state_frame_witness:
  "dom init_devices = {ascii ''light'', ascii ''ac'', ascii ''window'', ascii ''temperature''}
   \<and> update_state (ascii ''2026-01-01T00:00:00'') init_devices
        [ascii ''type'' \<mapsto> PyStr (ascii ''fan''), ascii ''action'' \<mapsto> PyStr action_on]
      = init_devices
   \<and> update_state (ascii ''2026-01-01T00:00:00'') init_devices
        [ascii ''type'' \<mapsto> PyStr (ascii ''light''), ascii ''action'' \<mapsto> PyStr (ascii ''dim'')]
      = init_devices(ascii ''light'' \<mapsto>
          [ascii ''state'' \<mapsto> PyStr (ascii ''off''), ascii ''last_action'' \<mapsto> PyNone,
           ascii ''last_update'' \<mapsto> PyNone,
           ascii ''last_action'' \<mapsto> PyStr (ascii ''dim''),
           ascii ''last_update'' \<mapsto> PyStr (ascii ''2026-01-01T00:00:00'')])"
proof -
  let ?t = "ascii ''2026-01-01T00:00:00''"
  let ?c1 = "[ascii ''type'' \<mapsto> PyStr (ascii ''fan''), ascii ''action'' \<mapsto> PyStr action_on]"
  let ?c2 = "[ascii ''type'' \<mapsto> PyStr (ascii ''light''), ascii ''action'' \<mapsto> PyStr (ascii ''dim'')]"
  let ?info = "[ascii ''state'' \<mapsto> PyStr (ascii ''off''), ascii ''last_action'' \<mapsto> PyNone,
          ascii ''last_update'' \<mapsto> PyNone]"
  have k: "ascii ''type'' \<noteq> ascii ''action''" by (simp add: ascii_def)
  have d: "dom init_devices =
      {ascii ''light'', ascii ''ac'', ascii ''window'', ascii ''temperature''}"
    by (auto simp: init_devices_def)
  have l: "init_devices (ascii ''light'') = Some ?info"
    by (simp add: init_devices_def ascii_def)
  have t1: "dict_get ?c1 (ascii ''type'') = PyStr (ascii ''fan'')"
    using k by (simp add: dict_get_def)
  have n1: "dict_get ?c1 (ascii ''type'') \<notin>
              PyStr ` {ascii ''light'', ascii ''ac'', ascii ''window'', ascii ''temperature''}"
    unfolding t1 by (simp add: ascii_def)
  have t2: "dict_get ?c2 (ascii ''type'') = PyStr (ascii ''light'')"
    using k by (simp add: dict_get_def)
  have a2: "dict_get ?c2 (ascii ''action'') = PyStr (ascii ''dim'')"
    by (simp add: dict_get_def)
  have n2: "dict_get ?c2 (ascii ''action'') \<notin> {PyStr action_on, PyStr action_off}"
    unfolding a2 by (simp add: ascii_def action_on_def action_off_def)
  have m: "ascii ''light'' \<in> {ascii ''light'', ascii ''ac'', ascii ''window''}" by simp
  have A: "update_state ?t init_devices ?c1 = init_devices"
    using update_state_frame [of init_devices ?c1 ?t "ascii ''light''" ?info] d n1 by blast
  have B: "update_state ?t init_devices ?c2 =
      init_devices(ascii ''light'' \<mapsto> ?info(ascii ''last_action'' \<mapsto> dict_get ?c2 (ascii ''action''),
                              ascii ''last_update'' \<mapsto> PyStr ?t))"
    using update_state_frame [of init_devices ?c2 ?t "ascii ''light''" ?info] m l t2 n2 by blast
  show ?thesis
    using d A B unfolding a2 by blast
qed

section \<open>Properties of UTF-8\<close>

lemma split3: "(c::nat) div 4096 * 4096 + c div 64 mod 64 * 64 + c mod 64 = c"
proof -
  define d where "d = c div 64"
  define x where "x = d div 64"
  define y where "y = d mod 64"
  define z where "z = c mod 64"
  have 1: "c = 64 * d + z" unfolding d_def z_def by simp
  have 2: "d = 64 * x + y" unfolding x_def y_def by simp
  have 3: "c div 4096 = x" unfolding x_def d_def by (simp add: div_mult2_eq)
  have 4: "x * 4096 + y * 64 + z = c" using 1 2 by linarith
  have "c div 4096 * 4096 + c div 64 mod 64 * 64 + c mod 64 = x * 4096 + y * 64 + z"
    by (simp only: 3 y_def d_def z_def)
  then show ?thesis using 4 by (rule trans)
qed

lemma split4:
  "(c::nat) div 262144 * 262144 + c div 4096 mod 64 * 4096 + c div 64 mod 64 * 64 + c mod 64 = c"
proof -
  define e where "e = c div 4096"
  define w where "w = e div 64"
  define x where "x = e mod 64"
  define r where "r = c div 64 mod 64 * 64 + c mod 64"
  have 1: "e * 4096 + r = c" unfolding e_def r_def using split3 [of c] by (simp only: add.assoc)
  have 2: "e = 64 * w + x" unfolding w_def x_def by simp
  have 3: "c div 262144 = w" unfolding w_def e_def by (simp add: div_mult2_eq)
  have 4: "w * 262144 + x * 4096 + r = c" using 1 2 by linarith
  have "c div 262144 * 262144 + c div 4096 mod 64 * 4096 + c div 64 mod 64 * 64 + c mod 64
      = w * 262144 + x * 4096 + r"
    by (simp only: 3 x_def e_def r_def add.assoc)
  then show ?thesis using 4 by (rule trans)
qed

lemma lead_bounds:
  "(c::nat) < 0x800 \<Longrightarrow> c div 64 < 32"
  "c < 0x10000 \<Longrightarrow> c div 4096 < 16"
  "c < 0x110000 \<Longrightarrow> c div 262144 < 8"
  by (simp_all add: less_mult_imp_div_less)

lemma lead_low: "0x80 \<le> (c::nat) \<Longrightarrow> 2 \<le> c div 64"
  using div_le_mono [of 128 c 64] by simp

lemma decode_encode_char:
  assumes "scalar c"
  shows "utf8_decode (encode_char c @ rest) = map_option ((#) c) (utf8_decode rest)"
proof -
  consider "c < 0x80" | "0x80 \<le> c" "c < 0x800" | "0x800 \<le> c" "c < 0x10000"
    | "0x10000 \<le> c" "c < 0x110000"
    using assms unfolding scalar_def by fastforce
  then show ?thesis
  proof cases
    case 1
    then show ?thesis by (simp add: encode_char_def)
  next
    case 2
    have r: "encode_char c = [0xC0 + c div 64, 0x80 + c mod 64]"
      using 2 by (simp add: encode_char_def)
    have e: "c div 64 * 64 + c mod 64 = c" by simp
    show ?thesis unfolding r using lead_bounds(1) [OF 2(2)] lead_low [OF 2(1)] 2(1)
      by (simp add: continuation_def Let_def e)
  next
    case 3
    have r: "encode_char c = [0xE0 + c div 4096, 0x80 + c div 64 mod 64, 0x80 + c mod 64]"
      using 3 by (simp add: encode_char_def)
    show ?thesis unfolding r using lead_bounds(2) [OF 3(2)] 3(1) assms
      by (simp add: continuation_def Let_def split3)
  next
    case 4
    have r: "encode_char c = [0xF0 + c div 262144, 0x80 + c div 4096 mod 64,
        0x80 + c div 64 mod 64, 0x80 + c mod 64]"
      using 4 by (simp add: encode_char_def)
    show ?thesis unfolding r using lead_bounds(3) [OF 4(2)] 4(1) assms
      by (simp add: continuation_def Let_def split4)
  qed
qed

lemma encode_char_byte: "c < 0x110000 \<Longrightarrow> b \<in> set (encode_char c) \<Longrightarrow> b < 256"
  using lead_bounds [of c] by (auto simp: encode_char_def split: if_splits)

lemma decode_encode_chars:
  "encodable s \<Longrightarrow>
   utf8_decode (concat (map encode_char s) @ rest) = map_option ((@) s) (utf8_decode rest)"
proof (induction s)
  case Nil
  then show ?case by (simp add: option.map_ident)
next
  case (Cons c s)
  then have "scalar c" "encodable s" by (simp_all add: encodable_def)
  with Cons.IH decode_encode_char [of c "concat (map encode_char s) @ rest"]
  show ?case by (simp add: option.map_comp comp_def)
qed

lemma unat_encode:
  assumes "encodable s"
  shows "map unat (utf8_encode s) = concat (map encode_char s)"
proof -
  have "b < 256" if "b \<in> set (concat (map encode_char s))" for b
  proof -
    from that obtain c where c: "c \<in> set s" "b \<in> set (encode_char c)" by auto
    with assms have "c < 0x110000" by (auto simp: encodable_def list_all_iff scalar_def)
    then show ?thesis using c(2) by (rule encode_char_byte)
  qed
  then have "map (\<lambda>b. unat (of_nat b :: 8 word)) (concat (map encode_char s))
      = map (\<lambda>b. b) (concat (map encode_char s))"
    by (intro map_cong [OF refl]) (simp add: unat_of_nat)
  then show ?thesis by (simp add: utf8_encode_def comp_def)
qed

lemma decode_utf8_encode:
  "encodable s \<Longrightarrow> decode (utf8_encode s @ rest) = map_option ((@) s) (decode rest)"
  by (simp add: decode_def unat_encode decode_encode_chars)

section \<open>Properties of the broker\<close>

declare drain.simps [simp del]

lemma drain_all: "drain q = Some (q\<lparr>items := []\<rparr>)"
proof (induction "items q" arbitrary: q)
  case Nil
  then show ?case by (subst drain.simps) (simp add: queue_empty_def)
next
  case (Cons x xs)
  from Cons.hyps(2) have g: "get_nowait q = Some (x, q\<lparr>items := xs\<rparr>)" "\<not> queue_empty q"
    by (simp_all add: get_nowait_def queue_empty_def flip: Cons.hyps(2))
  have "drain (q\<lparr>items := xs\<rparr>) = Some (q\<lparr>items := xs\<rparr>\<lparr>items := []\<rparr>)"
    by (rule Cons.hyps(1)) simp
  with g show ?case by (subst drain.simps) simp
qed

lemma deliver_cases:
  "deliver q m = (if 0 < maxsize q \<and> maxsize q \<le> int (length (items q))
                  then (q\<lparr>items := [m]\<rparr>, True) else (q\<lparr>items := items q @ [m]\<rparr>, True))"
  by (simp add: deliver_def put_nowait_def drain_all)

lemma process_lines_ok:
  "\<forall>l\<in>set lines. object_or_malformed loads l \<Longrightarrow>
   \<exists>q'. process_lines loads topics q lines = (q', matching_messages loads topics lines, True)
        \<and> subseq (items q') (items q @ matching_messages loads topics lines)
        \<and> maxsize q' = maxsize q"
proof (induction lines arbitrary: q)
  case Nil
  then show ?case by (simp add: matching_messages_def)
next
  case (Cons l lines)
  show ?case
  proof (cases "loads l")
    case JSONDecodeError
    with Cons show ?thesis by (simp add: matching_messages_def)
  next
    case NonDict
    with Cons.prems show ?thesis by (simp add: object_or_malformed_def)
  next
    case (Dict m)
    show ?thesis
    proof (cases "on_topic topics m")
      case False
      with Dict Cons show ?thesis by (simp add: matching_messages_def on_topic_def)
    next
      case True
      obtain q1 where d: "deliver q m = (q1, True)" and s1: "subseq (items q1) (items q @ [m])"
        and m1: "maxsize q1 = maxsize q"
        by (cases "0 < maxsize q \<and> maxsize q \<le> int (length (items q))")
           (auto simp: deliver_cases)
      from Cons.IH[of q1] Cons.prems obtain q' where
        p: "process_lines loads topics q1 lines = (q', matching_messages loads topics lines, True)"
        and s2: "subseq (items q') (items q1 @ matching_messages loads topics lines)"
        and m2: "maxsize q' = maxsize q1"
        by auto
      have "subseq (items q1 @ matching_messages loads topics lines)
                   ((items q @ [m]) @ matching_messages loads topics lines)"
        using s1 by (intro list_emb_append_mono) auto
      with s2 have "subseq (items q') (items q @ m # matching_messages loads topics lines)"
        using subseq_order.order_trans by fastforce
      with Dict True d p m1 m2 show ?thesis
        by (simp add: matching_messages_def on_topic_def)
    qed
  qed
qed



lemma read_cycle_mono:
  "length content \<ge> last_position \<Longrightarrow>
   last_position \<le> fst (read_cycle loads topics (Some content) last_position q)"
  by (auto simp: read_cycle_def reset_position_def Let_def split: prod.splits option.splits)

lemma read_cycle_missing:
  "read_cycle loads topics None last_position q = (last_position, q, [])"
  by (simp add: read_cycle_def)

lemma read_cycle_undecodable:
  "reset_position (length content) last_position < length content \<Longrightarrow>
   decode (drop (reset_position (length content) last_position) content) = None \<Longrightarrow>
   read_cycle loads topics (Some content) last_position q =
     (reset_position (length content) last_position, q, [])"
  by (simp add: read_cycle_def Let_def)

lemma read_cycle_reads:
  assumes "reset_position (length content) last_position < length content"
    and "decode (drop (reset_position (length content) last_position) content) = Some text"
    and "\<forall>l\<in>set (read_new_lines text). object_or_malformed loads l"
  shows "\<exists>q'. read_cycle loads topics (Some content) last_position q =
           (length content, q', matching_messages loads topics (read_new_lines text))
         \<and> subseq (items q') (items q @ matching_messages loads topics (read_new_lines text))"
proof -
  from process_lines_ok [OF assms(3), of topics q] obtain q' where
    "process_lines loads topics q (read_new_lines text) =
     (q', matching_messages loads topics (read_new_lines text), True)"
    "subseq (items q') (items q @ matching_messages loads topics (read_new_lines text))"
    by blast
  with assms(1,2) show ?thesis by (simp add: read_cycle_def Let_def)
qed

lemma read_messages_offsets:
  "read_messages loads topics p q files = (ps, q', ms) \<Longrightarrow>
   length ps = length files
   \<and> (\<forall>i<length files. case files ! i of
          None \<Rightarrow> ps ! i = (p # ps) ! i
        | Some content \<Rightarrow> (p # ps) ! i \<le> length content \<longrightarrow> (p # ps) ! i \<le> ps ! i)"
proof (induction files arbitrary: p q ps q' ms)
  case Nil
  then show ?case by simp
next
  case (Cons f files)
  obtain p1 q1 m1 where c: "read_cycle loads topics f p q = (p1, q1, m1)"
    by (cases "read_cycle loads topics f p q") auto
  obtain ps2 q2 m2 where r: "read_messages loads topics p1 q1 files = (ps2, q2, m2)"
    by (cases "read_messages loads topics p1 q1 files") auto
  from Cons.prems c r have ps: "ps = p1 # ps2" by simp
  from Cons.IH [OF r] have ih: "length ps2 = length files"
    "\<forall>i<length files. case files ! i of
          None \<Rightarrow> ps2 ! i = (p1 # ps2) ! i
        | Some content \<Rightarrow> (p1 # ps2) ! i \<le> length content \<longrightarrow> (p1 # ps2) ! i \<le> ps2 ! i"
    by auto
  have first: "case f of None \<Rightarrow> p1 = p | Some content \<Rightarrow> p \<le> length content \<longrightarrow> p \<le> p1"
  proof (cases f)
    case None
    with c read_cycle_missing [of loads topics p q] show ?thesis by simp
  next
    case (Some content)
    with c read_cycle_mono [of p content loads topics q] show ?thesis by simp
  qed
  show ?case
  proof (intro conjI allI impI)
    show "length ps = length (f # files)" using ps ih(1) by simp
  next
    fix i assume i: "i < length (f # files)"
    show "case (f # files) ! i of
          None \<Rightarrow> ps ! i = (p # ps) ! i
        | Some content \<Rightarrow> (p # ps) ! i \<le> length content \<longrightarrow> (p # ps) ! i \<le> ps ! i"
    proof (cases i)
      case 0
      with first ps show ?thesis by (auto split: option.splits)
    next
      case (Suc j)
      with i ih(2) ps show ?thesis by (auto split: option.splits)
    qed
  qed
qed




lemma example_loads_lines:
  "example_loads (ascii ''a'') = Dict message1" "example_loads (ascii ''b'') = Dict message2"
  "example_loads (ascii ''zz'') = JSONDecodeError" "example_loads (ascii ''5'') = NonDict"
  by (simp_all add: example_loads_def ascii_def)


lemma example_topic:
  "dict_get message1 (ascii ''topic'') = PyStr (ascii ''cmd'')"
  "dict_get message2 (ascii ''topic'') = PyStr (ascii ''cmd'')"
  by (simp_all add: message1_def message2_def dict_get_def broker_message_def ascii_def)





text \<open>
  C6, at inputs where the code departs from it. Only \<open>json.JSONDecodeError\<close> is handled
  for a line, so other unreadable content stops the cycle before \<open>last_position\<close> is
  updated, and every later cycle starts from the same offset. With a first byte that is
  no UTF-8 the offset stays at 0 over two cycles and nothing is delivered, although the
  file holds a message on the topic. With a line that is JSON but no object (\<open>5\<close>) the
  offset stays at 0 as well, the message before that line is delivered again in each
  cycle and the message after it never. After a reset of the file, an offset that falls
  inside a character of more than one byte is not left either.
\<close>

theorem tailer_stuck_on_unreadable_line:
  "length undecodable_log = 4
   \<and> read_messages example_loads [ascii ''cmd''] 0 example_queue
        [Some undecodable_log, Some undecodable_log]
      = ([0, 0], example_queue, [])
   \<and> length number_log = 6
   \<and> read_messages example_loads [ascii ''cmd''] 0 example_queue
        [Some number_log, Some number_log]
      = ([0, 0], \<lparr>maxsize = 100, items = [message1, message1]\<rparr>, [message1, message1])
   \<and> length reset_log = 6
   \<and> read_messages example_loads [ascii ''cmd''] 1 example_queue [Some reset_log, Some reset_log]
      = ([1, 1], example_queue, [])"
proof -
  have u: "decode undecodable_log = None" by (simp add: undecodable_log_def decode_def)
  have n: "decode number_log = Some [0x61, LF, 0x35, LF, 0x62, LF]"
    by (simp add: number_log_def decode_def LF_def)
  have l: "read_new_lines [0x61, LF, 0x35, LF, 0x62, LF] = [ascii ''a'', ascii ''5'', ascii ''b'']"
    by (simp add: read_new_lines_def LF_def CR_def str_strip_def isspace_def ascii_def)
  have r: "decode (drop (Suc 0) reset_log) = None" by (simp add: reset_log_def decode_def)
  have s: "length undecodable_log = 4" "length number_log = 6" "length reset_log = 6"
    by (simp_all add: undecodable_log_def number_log_def reset_log_def)
  have 1: "read_cycle example_loads [ascii ''cmd''] (Some undecodable_log) 0 q = (0, q, [])" for q
    by (simp add: read_cycle_def reset_position_def u s)
  have 2: "read_cycle example_loads [ascii ''cmd''] (Some number_log) 0 q
      = (0, fst (deliver q message1), [message1])" for q
    by (simp add: read_cycle_def reset_position_def n l s example_loads_lines example_topic
        deliver_cases)
  have 3: "read_cycle example_loads [ascii ''cmd''] (Some reset_log) (Suc 0) q = (Suc 0, q, [])"
    for q
    by (simp add: read_cycle_def reset_position_def r s)
  show ?thesis
    by (simp add: s 1 2 3 deliver_cases example_queue_def)
qed

lemma split_lines_line:
  "LF \<notin> set l \<Longrightarrow> CR \<notin> set l \<Longrightarrow> split_lines (l @ LF # rest) = l # split_lines rest"
  by (induction l) auto

lemma read_new_lines_text:
  "\<forall>m\<in>set ms. json_line dumps loads m \<Longrightarrow> read_new_lines (text_of dumps ms) = map dumps ms"
proof (induction ms)
  case Nil
  then show ?case by (simp add: read_new_lines_def text_of_def)
next
  case (Cons m ms)
  then have j: "json_line dumps loads m" by simp
  then have "split_lines (dumps m @ LF # text_of dumps ms) = dumps m # split_lines (text_of dumps ms)"
    by (intro split_lines_line) (auto simp: json_line_def)
  with Cons j show ?case by (simp add: read_new_lines_def text_of_def json_line_def)
qed

lemma decode_log_of:
  "list_all (\<lambda>m. encodable (dumps m @ [LF])) ms \<Longrightarrow>
   decode (log_of dumps ms) = Some (text_of dumps ms)"
proof (induction ms)
  case Nil
  then show ?case by (simp add: log_of_def text_of_def decode_def)
next
  case (Cons m ms)
  then have e: "encodable (dumps m @ [LF])" and r: "decode (log_of dumps ms) = Some (text_of dumps ms)"
    by simp_all
  have "decode (utf8_encode (dumps m @ [LF]) @ log_of dumps ms) =
      map_option ((@) (dumps m @ [LF])) (decode (log_of dumps ms))"
    using e by (rule decode_utf8_encode)
  with r show ?case by (simp add: log_of_def text_of_def)
qed

lemma matching_messages_dumps:
  "\<forall>m\<in>set ms. json_line dumps loads m \<Longrightarrow>
   matching_messages loads topics (map dumps ms) = filter (on_topic topics) ms"
  by (induction ms) (auto simp: matching_messages_def json_line_def)

lemma log_of_append: "log_of dumps (xs @ ys) = log_of dumps xs @ log_of dumps ys"
  by (simp add: log_of_def)

lemma log_of_take_drop:
  "drop (length (log_of dumps (take k ms))) (log_of dumps ms) = log_of dumps (drop k ms)"
proof -
  have "log_of dumps ms = log_of dumps (take k ms) @ log_of dumps (drop k ms)"
    by (simp flip: log_of_append)
  then show ?thesis by (metis append_eq_conv_conj)
qed

lemma length_log_of_take: "length (log_of dumps (take k ms)) \<le> length (log_of dumps ms)"
proof -
  have "log_of dumps ms = log_of dumps (take k ms) @ log_of dumps (drop k ms)"
    by (simp flip: log_of_append)
  then show ?thesis by (metis length_append le_add1)
qed

lemma poll_inv:
  assumes inv: "tail_inv dumps topics w ms"
    and codec: "\<forall>m\<in>set ms. json_line dumps loads m"
  shows "tail_inv dumps topics (broker_step dumps loads topics subs w Poll) ms"
proof -
  from inv obtain k where f: "log_file w = Some (log_of dumps ms)" and k: "k \<le> length ms"
    and en: "list_all (\<lambda>m. encodable (dumps m @ [LF])) ms"
    and p: "position w = length (log_of dumps (take k ms))"
    and s: "subseq (received w @ items (inbox w)) (filter (on_topic topics) (take k ms))"
    by (auto simp: tail_inv_def)
  let ?c = "log_of dumps ms"
  have le: "position w \<le> length ?c" unfolding p by (rule length_log_of_take)
  then have r: "reset_position (length ?c) (position w) = position w"
    by (simp add: reset_position_def)
  show ?thesis
  proof (cases "position w < length ?c")
    case False
    with le r f have "broker_step dumps loads topics subs w Poll = w"
      by (simp add: read_cycle_def)
    with inv show ?thesis by simp
  next
    case True
    have d: "drop (position w) ?c = log_of dumps (drop k ms)"
      unfolding p by (rule log_of_take_drop)
    have codec': "\<forall>m\<in>set (drop k ms). json_line dumps loads m"
      using codec by (meson in_set_dropD)
    have en': "list_all (\<lambda>m. encodable (dumps m @ [LF])) (drop k ms)"
      using en by (auto simp: list_all_iff dest: in_set_dropD)
    have dec: "decode (drop (position w) ?c) = Some (text_of dumps (drop k ms))"
      unfolding d using en' by (rule decode_log_of)
    have lines: "read_new_lines (text_of dumps (drop k ms)) = map dumps (drop k ms)"
      using codec' by (rule read_new_lines_text)
    have obj: "\<forall>l\<in>set (map dumps (drop k ms)). object_or_malformed loads l"
      using codec' by (auto simp: object_or_malformed_def json_line_def)
    from process_lines_ok [OF obj, of topics "inbox w"] obtain q' where
      pl: "process_lines loads topics (inbox w) (map dumps (drop k ms)) =
             (q', matching_messages loads topics (map dumps (drop k ms)), True)"
      and sq: "subseq (items q')
                 (items (inbox w) @ matching_messages loads topics (map dumps (drop k ms)))"
      by blast
    have mm: "matching_messages loads topics (map dumps (drop k ms)) =
        filter (on_topic topics) (drop k ms)"
      using codec' by (rule matching_messages_dumps)
    have step: "broker_step dumps loads topics subs w Poll =
        w\<lparr>position := length ?c, inbox := q'\<rparr>"
      using True r f dec lines pl by (simp add: read_cycle_def)
    have "subseq (received w @ items q')
            (received w @ items (inbox w) @ filter (on_topic topics) (drop k ms))"
      using sq mm by (simp add: list_emb_append_mono)
    moreover have "subseq (received w @ items (inbox w) @ filter (on_topic topics) (drop k ms))
            (filter (on_topic topics) (take k ms) @ filter (on_topic topics) (drop k ms))"
      using s by (metis append.assoc list_emb_append_mono subseq_order.order_refl)
    ultimately have "subseq (received w @ items q') (filter (on_topic topics) ms)"
      by (metis subseq_order.order_trans filter_append append_take_drop_id)
    then show ?thesis
      unfolding step tail_inv_def using f en by (auto intro!: exI[of _ "length ms"])
  qed
qed

lemma get_inv:
  assumes inv: "tail_inv dumps topics w ms"
  shows "tail_inv dumps topics (broker_step dumps loads topics subs w Get) ms"
proof (cases "items (inbox w)")
  case Nil
  with inv show ?thesis by (simp add: get_nowait_def)
next
  case (Cons x xs)
  with inv show ?thesis by (auto simp: get_nowait_def tail_inv_def)
qed

lemma publish_inv:
  assumes inv: "tail_inv dumps topics w ms"
  shows "tail_inv dumps topics (broker_step dumps loads topics subs w (Publish topic payload ts ok))
           (ms @ published dumps [Publish topic payload ts ok])"
proof -
  from inv obtain k where f: "log_file w = Some (log_of dumps ms)" and k: "k \<le> length ms"
    and en: "list_all (\<lambda>m. encodable (dumps m @ [LF])) ms"
    and p: "position w = length (log_of dumps (take k ms))"
    and s: "subseq (received w @ items (inbox w)) (filter (on_topic topics) (take k ms))"
    by (auto simp: tail_inv_def)
  show ?thesis
  proof (cases "ok \<and> encodable (dumps (broker_message topic payload ts) @ [LF])")
    case False
    with inv f show ?thesis by (auto simp: publish_def Let_def tail_inv_def)
  next
    case True
    then show ?thesis
      unfolding tail_inv_def using f k en p s
      by (auto simp: publish_def Let_def log_of_def intro!: exI[of _ k])
  qed
qed

lemma run_inv:
  "tail_inv dumps topics w ms \<Longrightarrow> \<forall>m\<in>set (ms @ published dumps ops). json_line dumps loads m \<Longrightarrow>
   tail_inv dumps topics (broker_run dumps loads topics subs w ops) (ms @ published dumps ops)"
proof (induction ops arbitrary: w ms)
  case Nil
  then show ?case by (simp add: broker_run_def)
next
  case (Cons op ops)
  have run: "broker_run dumps loads topics subs w (op # ops) =
             broker_run dumps loads topics subs (broker_step dumps loads topics subs w op) ops"
    by (simp add: broker_run_def)
  show ?case
  proof (cases op)
    case (Publish topic payload ts ok)
    have 1: "tail_inv dumps topics (broker_step dumps loads topics subs w op)
               (ms @ published dumps [op])"
      unfolding Publish using Cons.prems(1) by (rule publish_inv)
    have 2: "(ms @ published dumps [op]) @ published dumps ops = ms @ published dumps (op # ops)"
      using Publish by simp
    from Cons.IH [OF 1] Cons.prems(2) show ?thesis unfolding run 2 by simp
  next
    case Poll
    have "tail_inv dumps topics (broker_step dumps loads topics subs w Poll) ms"
      using Cons.prems by (intro poll_inv) auto
    from Cons.IH [OF this] Cons.prems(2) Poll show ?thesis unfolding run by simp
  next
    case Get
    have "tail_inv dumps topics (broker_step dumps loads topics subs w Get) ms"
      using Cons.prems by (intro get_inv) auto
    from Cons.IH [OF this] Cons.prems(2) Get show ?thesis unfolding run by simp
  qed
qed

text \<open>
  C8. Messages are published to an empty message file and a subscriber in another process
  tails it, interleaved in any way with the subscriber taking messages from its queue.
  Whatever the capacity of the queue, the sequence of messages the subscriber takes is a
  subsequence, in publish order, of the published messages on its topics, and so of all
  published messages. (\<open>json.dumps\<close> is taken to print each published message on one line
  that \<open>json.loads\<close> parses back.)
\<close>

theorem tailing_order:
  assumes "\<forall>m\<in>set (published dumps ops). json_line dumps loads m"
  shows "subseq (received (broker_run dumps loads topics subs (start queues capacity) ops))
           (filter (on_topic topics) (published dumps ops))
         \<and> subseq (received (broker_run dumps loads topics subs (start queues capacity) ops))
             (published dumps ops)"
proof -
  have "tail_inv dumps topics (start queues capacity) []"
    by (simp add: tail_inv_def start_def log_of_def)
  from run_inv [OF this, of ops loads subs] assms
  have "tail_inv dumps topics (broker_run dumps loads topics subs (start queues capacity) ops)
          (published dumps ops)"
    by simp
  then obtain k where
    "subseq (received (broker_run dumps loads topics subs (start queues capacity) ops)
             @ items (inbox (broker_run dumps loads topics subs (start queues capacity) ops)))
       (filter (on_topic topics) (take k (published dumps ops)))"
    by (auto simp: tail_inv_def)
  then have a: "subseq (received (broker_run dumps loads topics subs (start queues capacity) ops))
       (filter (on_topic topics) (take k (published dumps ops)))"
    by (meson list_emb_prefix subseq_order.order_refl subseq_order.order_trans)
  have "subseq (filter (on_topic topics) (take k (published dumps ops)))
          (filter (on_topic topics) (published dumps ops))"
    by (metis append_take_drop_id filter_append list_emb_prefix subseq_order.order_refl)
  with a have b: "subseq (received (broker_run dumps loads topics subs (start queues capacity) ops))
           (filter (on_topic topics) (published dumps ops))"
    using subseq_order.order_trans by blast
  moreover have "subseq (filter (on_topic topics) (published dumps ops)) (published dumps ops)"
    by simp
  ultimately show ?thesis using subseq_order.order_trans by blast
qed

lemma example_dumps_payload:
  "example_dumps (broker_message t (ascii ''1'') ts) = ascii ''a''"
  "example_dumps (broker_message t (ascii ''2'') ts) = ascii ''b''"
  "example_dumps (broker_message t (ascii ''3'') ts) = ascii ''c''"
  by (simp_all add: example_dumps_def broker_message_def dict_get_def ascii_def)

lemma example_encoded:
  "encodable (ascii ''a'' @ [LF])" "encodable (ascii ''b'' @ [LF])"
  "utf8_encode (ascii ''a'' @ [LF]) = [0x61, 0x0A]"
  "utf8_encode (ascii ''b'' @ [LF]) = [0x62, 0x0A]"
  by (simp_all add: encodable_def scalar_def utf8_encode_def encode_char_def ascii_def LF_def)

lemma example_published: "published example_dumps example_ops = [message1, message2]"
  by (simp add: example_ops_def message1_def message2_def example_dumps_payload example_encoded)

lemma example_json_line:
  "json_line example_dumps example_loads message1"
  "json_line example_dumps example_loads message2"
  by (simp_all add: json_line_def example_dumps_def example_loads_def message1_def
      message2_def broker_message_def dict_get_def ascii_def str_strip_def isspace_def
      LF_def CR_def)

lemma example_received:
  "received (broker_run example_dumps example_loads [ascii ''cmd''] Map.empty
     (start (\<lambda>i. example_queue) 100) example_ops) = [message1, message2]"
proof -
  have d: "decode [0x61, 0x0A] = Some [0x61, 0x0A]" "decode [0x62, 0x0A] = Some [0x62, 0x0A]"
    by (simp_all add: decode_def)
  have l: "read_new_lines [0x61, 0x0A] = [ascii ''a'']" "read_new_lines [0x62, 0x0A] = [ascii ''b'']"
    by (simp_all add: read_new_lines_def LF_def CR_def str_strip_def isspace_def ascii_def)
  show ?thesis
    by (simp add: broker_run_def example_ops_def start_def publish_def example_dumps_payload
        example_encoded read_cycle_def reset_position_def d l example_loads_lines
        example_topic deliver_cases get_nowait_def)
qed

theorem tailing_order_witness:
  "json_line example_dumps example_loads message1
   \<and> json_line example_dumps example_loads message2
   \<and> published example_dumps example_ops = [message1, message2]
   \<and> received (broker_run example_dumps example_loads [ascii ''cmd''] Map.empty
          (start (\<lambda>i. example_queue) 100) example_ops) = [message1, message2]
   \<and> subseq (received (broker_run example_dumps example_loads [ascii ''cmd''] Map.empty
          (start (\<lambda>i. example_queue) 100) example_ops)) (published example_dumps example_ops)"
  using tailing_order [of example_dumps example_ops example_loads "[ascii ''cmd'']" Map.empty
      "\<lambda>i. example_queue" 100]
  by (simp add: example_published example_json_line example_received)

section \<open>Properties of the main loop\<close>

lemma speak_reply_effects:
  "effects (speak_reply c r st) =
     effects st @ Synthesize r True (now_reply c)
       # (if tts_ok c then [Play (play_ok c) True (now_reply c)] else [])"
  "\<not> audio_paused (speak_reply c r st)"
  "last_interaction_time (speak_reply c r st) = now_reply c"
  "conversation_history (speak_reply c r st) = conversation_history st"
  "device_store (speak_reply c r st) = device_store st"
  by (simp_all add: speak_reply_def Let_def pause_def resume_def text_to_speech_def
      play_audio_file_def)

lemma handle_command_effects:
  "effects (snd (handle_command cfg d c rt st)) = effects st"
  by (simp add: handle_command_def Let_def split: prod.splits)

lemma handle_chat_effects: "effects (snd (handle_chat c rt st)) = effects st"
  by (simp add: handle_chat_def)

lemma turn_branch_effects:
  assumes "(if intent = PyStr (ascii ''command'') then
              (case handle_command cfg d c rt st of (response_text, st1) \<Rightarrow> (response_text, True, st1))
            else if intent = PyStr (ascii ''chat'') then
              (case handle_chat c rt st of (response_text, st1) \<Rightarrow> (response_text, True, st1))
            else ([], False, st)) = (r, sr, st1)"
  shows "effects st1 = effects st"
  using assms handle_command_effects[of cfg d c rt st] handle_chat_effects[of c rt st]
  by (auto split: if_splits prod.splits)

lemma process_utterance_effects:
  "effects (process_utterance cfg d c st) = effects st
   \<or> (\<exists>r. r \<noteq> []
          \<and> effects (process_utterance cfg d c st) =
              effects st @ Synthesize r True (now_reply c)
                # (if tts_ok c then [Play (play_ok c) True (now_reply c)] else [])
          \<and> \<not> audio_paused (process_utterance cfg d c st)
          \<and> last_interaction_time (process_utterance cfg d c st) = now_reply c)"
proof (cases "stt_text c = [] \<or> length (str_strip (stt_text c)) = 0")
  case True
  then show ?thesis by (auto simp: process_utterance_def)
next
  case False
  let ?a = "arbitrate (now_analysis c - last_interaction_time st < ACTIVE_WINDOW) (stt_text c)
     (dict_get_default (analysis c) (ascii ''intent'') (PyStr (ascii ''ignore'')))"
  show ?thesis
  proof (cases ?a)
    case None
    with False show ?thesis by (simp add: process_utterance_def Let_def)
  next
    case (Some intent)
    obtain r sr st1 where b: "(if intent = PyStr (ascii ''command'') then
              (case handle_command cfg d c (resolve_text c) st of (response_text, st1) \<Rightarrow> (response_text, True, st1))
            else if intent = PyStr (ascii ''chat'') then
              (case handle_chat c (resolve_text c) st of (response_text, st1) \<Rightarrow> (response_text, True, st1))
            else ([], False, st)) = (r, sr, st1)"
      using prod_cases3 by blast
    from turn_branch_effects [OF b] have e: "effects st1 = effects st" .
    have p: "process_utterance cfg d c st =
        (if sr \<and> r \<noteq> [] then speak_reply c r st1 else st1)"
      using False Some b by (simp add: process_utterance_def Let_def)
    show ?thesis
    proof (cases "sr \<and> r \<noteq> []")
      case True
      with p e speak_reply_effects [of c r st1] show ?thesis by auto
    next
      case False
      with p e show ?thesis by simp
    qed
  qed
qed

text \<open>
  C4. Whenever a reply is spoken, \<open>last_interaction_time\<close> is set to the current time
  first, the segmenter is paused, synthesis and (if a file was produced) playback run while
  it is paused, and the segmenter is resumed afterwards; this holds whether or not
  synthesis or playback fail (\<open>tts_ok\<close>, \<open>play_ok\<close>), since \<open>text_to_speech\<close> and
  \<open>play_audio_file\<close> catch their exceptions. In a whole turn every synthesis and playback
  is observed with the pause flag set and the activity time already updated, and a turn
  that spoke ends with the segmenter resumed.
\<close>

theorem reply_bracketed:
  "effects (speak_reply c r st) =
     effects st @ Synthesize r True (now_reply c)
       # (if tts_ok c then [Play (play_ok c) True (now_reply c)] else [])
   \<and> \<not> audio_paused (speak_reply c r st)
   \<and> last_interaction_time (speak_reply c r st) = now_reply c
   \<and> (\<forall>e\<in>set (drop (length (effects st)) (effects (process_utterance cfg d c st))).
         effect_paused e \<and> effect_time e = now_reply c)
   \<and> (effects (process_utterance cfg d c st) \<noteq> effects st \<longrightarrow>
         \<not> audio_paused (process_utterance cfg d c st)
         \<and> last_interaction_time (process_utterance cfg d c st) = now_reply c)"
  using speak_reply_effects [of c r st] process_utterance_effects [of cfg d c st]
  by auto


lemma resolve_text_intent:
  "resolve_text (c\<lparr>analysis := (analysis c)(ascii ''intent'' \<mapsto> v)\<rparr>) = resolve_text c"
  by (simp add: resolve_text_def dict_get_default_def ascii_def)

lemma process_utterance_chat:
  assumes "stt_text c \<noteq> []" "str_strip (stt_text c) \<noteq> []"
    and "arbitrate (now_analysis c - last_interaction_time st < ACTIVE_WINDOW) (stt_text c)
           (dict_get_default (analysis c) (ascii ''intent'') (PyStr (ascii ''ignore'')))
         = Some (PyStr (ascii ''chat''))"
  shows "process_utterance cfg d c st =
           (if chat_response c \<noteq> []
            then speak_reply c (chat_response c) (snd (handle_chat c (resolve_text c) st))
            else snd (handle_chat c (resolve_text c) st))"
  using assms by (simp add: process_utterance_def Let_def handle_chat_def ascii_def)

text \<open>
  C5. An utterance (not blank) is classified as \<open>ignore\<close>. If the activity window is open
  and the recognised text is longer than 3 characters, the turn is the turn of the same
  utterance classified as \<open>chat\<close>: the user text and the reply are appended to the
  history, and the reply is spoken (if it is not empty). If the window is closed or the
  text has at most 3 characters, the turn changes nothing: no reply, no history entry.
\<close>

theorem arbiter_reclassification:
  assumes "stt_text c \<noteq> []" "str_strip (stt_text c) \<noteq> []"
    and "dict_get_default (analysis c) (ascii ''intent'') (PyStr (ascii ''ignore''))
         = PyStr (ascii ''ignore'')"
  shows "(now_analysis c - last_interaction_time st < ACTIVE_WINDOW \<and> 3 < length (stt_text c) \<longrightarrow>
            process_utterance cfg d c st =
              process_utterance cfg d
                (c\<lparr>analysis := (analysis c)(ascii ''intent'' \<mapsto> PyStr (ascii ''chat''))\<rparr>) st
            \<and> conversation_history (process_utterance cfg d c st) =
                add_message max_history (ascii ''assistant'') (PyStr (chat_response c))
                  (assistant_time c) None
                  (add_message max_history (ascii ''user'') (resolve_text c) (user_time c) None
                     (conversation_history st))
            \<and> effects (process_utterance cfg d c st) =
                effects st @
                  (if chat_response c = [] then []
                   else Synthesize (chat_response c) True (now_reply c)
                          # (if tts_ok c then [Play (play_ok c) True (now_reply c)] else [])))
         \<and> (\<not> now_analysis c - last_interaction_time st < ACTIVE_WINDOW \<or> length (stt_text c) \<le> 3 \<longrightarrow>
              process_utterance cfg d c st = st)"
proof -
  let ?c' = "c\<lparr>analysis := (analysis c)(ascii ''intent'' \<mapsto> PyStr (ascii ''chat''))\<rparr>"
  have drop: "\<not> now_analysis c - last_interaction_time st < ACTIVE_WINDOW \<or> length (stt_text c) \<le> 3
      \<Longrightarrow> process_utterance cfg d c st = st"
    using assms by (auto simp: process_utterance_def Let_def arbitrate_def)
  have chat: "process_utterance cfg d c st =
           (if chat_response c \<noteq> []
            then speak_reply c (chat_response c) (snd (handle_chat c (resolve_text c) st))
            else snd (handle_chat c (resolve_text c) st))"
    if a: "now_analysis c - last_interaction_time st < ACTIVE_WINDOW \<and> 3 < length (stt_text c)"
    using assms a by (intro process_utterance_chat) (auto simp: arbitrate_def)
  have chat': "process_utterance cfg d ?c' st =
           (if chat_response ?c' \<noteq> []
            then speak_reply ?c' (chat_response ?c') (snd (handle_chat ?c' (resolve_text ?c') st))
            else snd (handle_chat ?c' (resolve_text ?c') st))"
    using assms(1,2)
    by (intro process_utterance_chat) (auto simp: arbitrate_def dict_get_default_def ascii_def)
  have same: "speak_reply ?c' r s = speak_reply c r s" "handle_chat ?c' t s = handle_chat c t s" for r s t
    by (simp_all add: speak_reply_def handle_chat_def text_to_speech_def play_audio_file_def Let_def)
  have eq: "now_analysis c - last_interaction_time st < ACTIVE_WINDOW \<and> 3 < length (stt_text c)
      \<Longrightarrow> process_utterance cfg d c st = process_utterance cfg d ?c' st"
    using chat chat' by (simp add: same resolve_text_intent)
  have h: "conversation_history (snd (handle_chat c (resolve_text c) st)) =
      add_message max_history (ascii ''assistant'') (PyStr (chat_response c))
                  (assistant_time c) None
                  (add_message max_history (ascii ''user'') (resolve_text c) (user_time c) None
                     (conversation_history st))"
    "effects (snd (handle_chat c (resolve_text c) st)) = effects st"
    by (simp_all add: handle_chat_def)
  show ?thesis
    using drop eq chat h speak_reply_effects [of c "chat_response c" "snd (handle_chat c (resolve_text c) st)"]
    by auto
qed

lemma send_command_real_path:
  "\<not> LOCAL_BROKER_AVAILABLE cfg \<Longrightarrow> connected self \<Longrightarrow> client_set self \<Longrightarrow>
   send_command cfg d io topic self t command = (io_publish_rc io = Some 0, self, t)"
  by (auto simp: send_command_def Let_def split: option.splits)

lemma send_command_local_path:
  "LOCAL_BROKER_AVAILABLE cfg \<Longrightarrow> USE_LOCAL_BROKER cfg \<Longrightarrow> connected self \<Longrightarrow>
   broker_exists t \<Longrightarrow> fst (send_command cfg d io topic self t command) = True"
  by (auto simp: send_command_def Let_def get_broker_def split: option.splits prod.splits)

lemma example_keys:
  "ascii ''type'' \<noteq> ascii ''device''" "ascii ''type'' \<noteq> ascii ''action''"
  "ascii ''device'' \<noteq> ascii ''action''" "ascii ''state'' \<noteq> ascii ''last_action''"
  "ascii ''state'' \<noteq> ascii ''last_update''" "ascii ''last_action'' \<noteq> ascii ''last_update''"
  "ascii ''light'' \<noteq> ascii ''temperature''" "ascii ''light'' \<noteq> ascii ''window''"
  "ascii ''light'' \<noteq> ascii ''none''" "ascii ''light'' \<noteq> ascii ''ac''"
  by (simp_all add: ascii_def)

lemma example_send:
  "send_command example_config example_dumps example_io command_topic
     example_client example_transport example_command
   = (True, example_client, example_transport)"
  by (simp add: send_command_def Let_def example_config_def example_client_def
      example_transport_def example_io_def get_broker_def publish_def)

text \<open>
  C2, at an input where the code departs from it. The local broker is in use and the
  message file cannot be written: \<open>publish\<close> returns \<open>False\<close> and leaves the file as it
  was, but \<open>send_command\<close> does not look at that value and returns \<open>True\<close>. The command
  branch of the main loop then updates the device state (the light goes from \<open>off\<close> to
  \<open>on\<close>) and answers that the command was carried out.
\<close>

theorem send_command_ignores_failed_write:
  "publish example_dumps (io_write_ok example_io) (io_publish_time example_io) Map.empty
      (\<lambda>i. example_queue) (Some []) command_topic (ascii ''{}'')
    = (False, Some [], (\<lambda>i. example_queue))
   \<and> send_command example_config example_dumps example_io command_topic
        example_client example_transport example_command
      = (True, example_client, example_transport)
   \<and> (case init_devices (ascii ''light'') of
         None \<Rightarrow> False
       | Some info \<Rightarrow> dict_get info (ascii ''state'') = PyStr (ascii ''off''))
   \<and> (case device_store
              (snd (handle_command example_config example_dumps example_turn
                      (PyStr (ascii ''light on'')) example_assistant))
              (ascii ''light'') of
         None \<Rightarrow> False
       | Some info \<Rightarrow> dict_get info (ascii ''state'') = PyStr (ascii ''on''))
   \<and> fst (handle_command example_config example_dumps example_turn
             (PyStr (ascii ''light on'')) example_assistant)
      = [0x597D, 0x7684, 0xFF0C, 0x5F00, 0x706F]"
proof -
  have p: "publish example_dumps (io_write_ok example_io) (io_publish_time example_io) Map.empty
      (\<lambda>i. example_queue) (Some []) command_topic (ascii ''{}'')
    = (False, Some [], (\<lambda>i. example_queue))"
    by (simp add: publish_def example_io_def)
  have i: "init_devices (ascii ''light'') =
      Some [ascii ''state'' \<mapsto> PyStr (ascii ''off''), ascii ''last_action'' \<mapsto> PyNone,
            ascii ''last_update'' \<mapsto> PyNone]"
    by (simp add: init_devices_def example_keys)
  have u: "update_state (ascii ''t5'') init_devices example_command (ascii ''light'') =
      Some ([ascii ''state'' \<mapsto> PyStr (ascii ''off''), ascii ''last_action'' \<mapsto> PyNone,
            ascii ''last_update'' \<mapsto> PyNone]
            (ascii ''state'' \<mapsto> PyStr (ascii ''on''), ascii ''last_action'' \<mapsto> PyStr action_on,
             ascii ''last_update'' \<mapsto> PyStr (ascii ''t5'')))"
    by (simp add: update_state_def example_command_def dict_get_def i example_keys Let_def)
  have f: "format_command_message example_command = [0x5F00, 0x706F]"
    by (simp add: format_command_message_def example_command_def dict_get_def
        dict_get_default_def example_keys Let_def truthy_def py_str_def action_on_def)
  have t: "dict_get example_command (ascii ''type'') \<noteq> PyStr (ascii ''none'')"
    by (simp add: example_command_def dict_get_def example_keys)
  have h: "handle_command example_config example_dumps example_turn
             (PyStr (ascii ''light on'')) example_assistant =
      ([0x597D, 0x7684, 0xFF0C, 0x5F00, 0x706F],
       example_assistant\<lparr>mqtt := example_client, broker := example_transport,
          device_store := update_state (ascii ''t5'') init_devices example_command,
          conversation_history :=
            add_message max_history (ascii ''assistant'') (PyStr [0x597D, 0x7684, 0xFF0C, 0x5F00, 0x706F])
              (ascii ''t4'') (Some example_command)
              (add_message max_history (ascii ''user'') (PyStr (ascii ''light on'')) (ascii ''t3'') None [])\<rparr>)"
    using t by (simp add: handle_command_def example_turn_def example_assistant_def example_send f Let_def)
  show ?thesis
    unfolding h using p example_send i u
    by (simp add: dict_get_def example_keys)
qed

lemma example_text:
  "stt_text example_turn \<noteq> []" "str_strip (stt_text example_turn) \<noteq> []"
  "length (stt_text example_turn) = 11"
  "dict_get_default (analysis example_turn) (ascii ''intent'') (PyStr (ascii ''ignore''))
     = PyStr (ascii ''ignore'')"
  by (simp_all add: example_turn_def ascii_def str_strip_def isspace_def dict_get_default_def)

theorem arbiter_reclassification_witness:
  "stt_text example_turn \<noteq> [] \<and> str_strip (stt_text example_turn) \<noteq> []
   \<and> dict_get_default (analysis example_turn) (ascii ''intent'') (PyStr (ascii ''ignore''))
       = PyStr (ascii ''ignore'')
   \<and> now_analysis example_turn - last_interaction_time example_assistant < ACTIVE_WINDOW
   \<and> 3 < length (stt_text example_turn)
   \<and> conversation_history
        (process_utterance example_config example_dumps example_turn
           example_assistant)
      = [\<lparr>msg_role = ascii ''user'', msg_content = PyStr (ascii ''hello there''),
          msg_timestamp = ascii ''t3'', msg_command = None\<rparr>,
         \<lparr>msg_role = ascii ''assistant'', msg_content = PyStr (ascii ''hi''),
          msg_timestamp = ascii ''t4'', msg_command = None\<rparr>]
   \<and> effects
        (process_utterance example_config example_dumps example_turn
           example_assistant)
      = [Synthesize (ascii ''hi'') True 112]
   \<and> process_utterance example_config example_dumps
        (example_turn\<lparr>now_analysis := 131\<rparr>) example_assistant = example_assistant
   \<and> process_utterance example_config example_dumps
        (example_turn\<lparr>stt_text := ascii ''hey''\<rparr>) example_assistant = example_assistant"
proof -
  have r: "resolve_text example_turn = PyStr (ascii ''hello there'')"
    by (simp add: resolve_text_def example_turn_def dict_get_default_def ascii_def Let_def)
  have a: "now_analysis example_turn - last_interaction_time example_assistant < ACTIVE_WINDOW"
    "\<not> now_analysis (example_turn\<lparr>now_analysis := 131\<rparr>) - last_interaction_time example_assistant
        < ACTIVE_WINDOW"
    by (simp_all add: example_turn_def example_assistant_def ACTIVE_WINDOW_def)
  have s: "stt_text (example_turn\<lparr>stt_text := ascii ''hey''\<rparr>) \<noteq> []"
    "str_strip (stt_text (example_turn\<lparr>stt_text := ascii ''hey''\<rparr>)) \<noteq> []"
    "length (stt_text (example_turn\<lparr>stt_text := ascii ''hey''\<rparr>)) \<le> 3"
    by (simp_all add: ascii_def str_strip_def isspace_def)
  have v: "chat_response example_turn = ascii ''hi''" "tts_ok example_turn = False"
    "now_reply example_turn = 112" "user_time example_turn = ascii ''t3''"
    "assistant_time example_turn = ascii ''t4''"
    "conversation_history example_assistant = []" "effects example_assistant = []"
    "ascii ''hi'' \<noteq> []"
    by (simp_all add: example_turn_def example_assistant_def ascii_def)
  note T = arbiter_reclassification [OF example_text(1) example_text(2) example_text(4),
      where st = example_assistant and cfg = example_config
        and d = example_dumps]
  have len: "3 < length (stt_text example_turn)" by (simp add: example_text(3))
  from T a(1) len have H: "conversation_history
        (process_utterance example_config example_dumps example_turn
           example_assistant) =
      add_message max_history (ascii ''assistant'') (PyStr (chat_response example_turn))
        (assistant_time example_turn) None
        (add_message max_history (ascii ''user'') (resolve_text example_turn)
           (user_time example_turn) None (conversation_history example_assistant))"
    by blast
  from T a(1) len have F: "effects
        (process_utterance example_config example_dumps example_turn
           example_assistant) =
      effects example_assistant @
        (if chat_response example_turn = [] then []
         else Synthesize (chat_response example_turn) True (now_reply example_turn)
                # (if tts_ok example_turn
                   then [Play (play_ok example_turn) True (now_reply example_turn)] else []))"
    by blast
  have 1: "conversation_history
        (process_utterance example_config example_dumps example_turn
           example_assistant)
      = [\<lparr>msg_role = ascii ''user'', msg_content = PyStr (ascii ''hello there''),
          msg_timestamp = ascii ''t3'', msg_command = None\<rparr>,
         \<lparr>msg_role = ascii ''assistant'', msg_content = PyStr (ascii ''hi''),
          msg_timestamp = ascii ''t4'', msg_command = None\<rparr>]
     \<and> effects
        (process_utterance example_config example_dumps example_turn
           example_assistant)
      = [Synthesize (ascii ''hi'') True 112]"
    unfolding H F by (simp add: r v add_message_def max_history_def)
  have 2: "process_utterance example_config example_dumps
        (example_turn\<lparr>now_analysis := 131\<rparr>) example_assistant = example_assistant"
    using arbiter_reclassification [of "example_turn\<lparr>now_analysis := 131\<rparr>" example_assistant
        example_config example_dumps] example_text a(2)
    by simp
  have 3: "process_utterance example_config example_dumps
        (example_turn\<lparr>stt_text := ascii ''hey''\<rparr>) example_assistant = example_assistant"
    using arbiter_reclassification [of "example_turn\<lparr>stt_text := ascii ''hey''\<rparr>"
        example_assistant example_config example_dumps] example_text(4) s
    by simp
  show ?thesis using example_text a(1) 1 2 3 by simp
qed

theorem reply_bracketed_witness:
  "tts_ok example_turn = False
   \<and> effects (speak_reply example_turn (ascii ''hi'') example_assistant)
       = [Synthesize (ascii ''hi'') True 112]
   \<and> \<not> audio_paused (speak_reply example_turn (ascii ''hi'') example_assistant)
   \<and> last_interaction_time (speak_reply example_turn (ascii ''hi'') example_assistant) = 112
   \<and> effects (speak_reply (example_turn\<lparr>tts_ok := True, play_ok := False\<rparr>) (ascii ''hi'')
         example_assistant)
       = [Synthesize (ascii ''hi'') True 112, Play False True 112]
   \<and> \<not> audio_paused (speak_reply (example_turn\<lparr>tts_ok := True, play_ok := False\<rparr>)
         (ascii ''hi'') example_assistant)
   \<and> effects (process_utterance example_config example_dumps
         (example_turn\<lparr>tts_ok := True, play_ok := False\<rparr>) example_assistant)
       \<noteq> effects example_assistant
   \<and> \<not> audio_paused (process_utterance example_config example_dumps
         (example_turn\<lparr>tts_ok := True, play_ok := False\<rparr>) example_assistant)
   \<and> last_interaction_time (process_utterance example_config example_dumps (example_turn\<lparr>tts_ok := True, play_ok := False\<rparr>) example_assistant)
       = 112"
proof -
  let ?c = "example_turn\<lparr>tts_ok := True, play_ok := False\<rparr>"
  have v: "tts_ok example_turn = False" "now_reply example_turn = 112"
    "effects example_assistant = []" "now_reply ?c = 112" "tts_ok ?c" "\<not> play_ok ?c"
    by (simp_all add: example_turn_def example_assistant_def)
  have e: "effects (process_utterance example_config example_dumps ?c
             example_assistant) \<noteq> effects example_assistant"
    by (simp add: process_utterance_def Let_def example_turn_def example_assistant_def
        arbitrate_def ACTIVE_WINDOW_def dict_get_default_def handle_chat_def speak_reply_def
        text_to_speech_def play_audio_file_def pause_def resume_def ascii_def str_strip_def
        isspace_def)
  show ?thesis
    using v e
      reply_bracketed [of example_turn "ascii ''hi''" example_assistant example_config
        example_dumps]
      reply_bracketed [of ?c "ascii ''hi''" example_assistant example_config
        example_dumps]
    by simp
qed

end
